theory Spec2Isabelle
  imports Main "HOL-Library.AList" "HOL-Library.Countable"
begin

section \<open>The chunk manager frontend\<close>

text \<open>
  A shallow embedding of \<^verbatim>\<open>neuroglancer/chunk_manager/frontend.ts\<close>: the classes \<^verbatim>\<open>Chunk\<close>,
  \<^verbatim>\<open>ChunkQueueManager\<close>, \<^verbatim>\<open>ChunkManager\<close> and \<^verbatim>\<open>ChunkSource\<close>, the RPC handler
  \<^verbatim>\<open>Chunk.update\<close> and the class factory \<^verbatim>\<open>WithParameters\<close>. Objects that the code
  shares by reference (the queued update records, the chunk sources) live in explicit
  stores; every \<^verbatim>\<open>throw\<close> and every access to a property of \<^verbatim>\<open>undefined\<close> is an error
  value, returned together with the state the code had reached when it was raised.
\<close>

subsection \<open>Chunk states and errors\<close>

text \<open>
  Modelled from the spec: the enum \<^verbatim>\<open>ChunkState\<close> of \<^verbatim>\<open>neuroglancer/chunk_manager/base\<close>
  (imported at line 17) is not among the sources. The code names three of its members:
  \<^verbatim>\<open>GPU_MEMORY\<close> (the spec's FastTier), \<^verbatim>\<open>SYSTEM_MEMORY\<close> (Resident) and \<^verbatim>\<open>EXPIRED\<close>.
  The state of an update record is an untyped number (line 97), so every other number,
  the spec's Remote among them, is \<open>OTHER_STATE n\<close>.
\<close>

datatype ChunkState = GPU_MEMORY | SYSTEM_MEMORY | EXPIRED | OTHER_STATE nat

text \<open>
  \<open>TypeError\<close>: a property of \<^verbatim>\<open>undefined\<close> or \<^verbatim>\<open>null\<close> is read or called;
  \<open>NotImplemented\<close>: line 215; \<open>InvalidChunkState\<close>: line 122.
\<close>

datatype error = TypeError | NotImplemented | InvalidChunkState ChunkState

subsection \<open>Chunk (lines 28--43)\<close>

text \<open>\<open>source\<close> is the back-reference to the owning chunk source, as its RPC id.\<close>

record Chunk =
  source :: nat
  state :: ChunkState

text \<open>The constructor with the field initialiser of line 29.\<close>

definition new_Chunk :: "nat \<Rightarrow> Chunk" where
  "new_Chunk src = \<lparr>source = src, state = SYSTEM_MEMORY\<rparr>"

definition copyToGPU :: "Chunk \<Rightarrow> Chunk" where
  "copyToGPU chunk = chunk\<lparr>state := GPU_MEMORY\<rparr>"

definition freeGPUMemory :: "Chunk \<Rightarrow> Chunk" where
  "freeGPUMemory chunk = chunk\<lparr>state := SYSTEM_MEMORY\<rparr>"

subsection \<open>Update records\<close>

text \<open>
  The object \<^verbatim>\<open>x\<close> that the producer sends: \<^verbatim>\<open>x['source']\<close>, \<^verbatim>\<open>x['id']\<close>, \<^verbatim>\<open>x['state']\<close>,
  \<^verbatim>\<open>x['new']\<close> and \<^verbatim>\<open>x['chunkDataSize']\<close> (read at lines 91--104 and 140). The code
  links the queued records through a further property \<^verbatim>\<open>nextUpdate\<close>, which the model
  keeps as a separate store (see \<open>nextUpdate\<close> below).
\<close>

record update =
  upd_source :: nat
  upd_id :: string
  upd_state :: ChunkState
  upd_new :: bool
  chunkDataSize :: nat

subsection \<open>JavaScript values and objects\<close>

text \<open>
  Options and key objects are plain JavaScript objects: properties in insertion order,
  where an assignment to an existing property keeps its place (\<open>AList.update\<close>).
\<close>

datatype jsval =
    JUndefined
  | JNumber int
  | JString string
  | JObject "(string \<times> jsval) list"

type_synonym jsobject = "(string \<times> jsval) list"

definition get_prop :: "jsobject \<Rightarrow> string \<Rightarrow> jsval" where
  "get_prop obj k = (case map_of obj k of None \<Rightarrow> JUndefined | Some v \<Rightarrow> v)"

definition set_prop :: "string \<Rightarrow> jsval \<Rightarrow> jsobject \<Rightarrow> jsobject" where
  "set_prop k v obj = AList.update k v obj"

instance jsval :: countable
  by countable_datatype

subsection \<open>ChunkSource (lines 187--221) and its classes (lines 154--157, 223--246)\<close>

text \<open>
  \<open>chunks\<close> is the \<^verbatim>\<open>Map<string, Chunk>\<close> of line 188. A chunk object is mutated in
  place by \<^verbatim>\<open>copyToGPU\<close> and \<^verbatim>\<open>freeGPUMemory\<close>; the model stores chunks by value and
  writes the changed chunk back under its key. \<open>overridesGetChunk\<close> tells whether the
  class of the source overrides \<^verbatim>\<open>getChunk\<close>. \<open>refCount\<close> is the reference count that
  \<^verbatim>\<open>SharedObject\<close> inherits (see \<open>StringMemoize_get\<close>). Fields that are only forwarded
  to the backend counterpart (\<^verbatim>\<open>parameters\<close>) are left out.
\<close>

record ChunkSource =
  chunks :: "string \<rightharpoonup> Chunk"
  overridesGetChunk :: bool
  refCount :: nat

definition deleteChunk :: "string \<Rightarrow> ChunkSource \<Rightarrow> ChunkSource" where
  "deleteChunk key src = src\<lparr>chunks := (chunks src)(key := None)\<rparr>"

definition addChunk :: "string \<Rightarrow> Chunk \<Rightarrow> ChunkSource \<Rightarrow> ChunkSource" where
  "addChunk key chunk src = src\<lparr>chunks := (chunks src)(key \<mapsto> chunk)\<rparr>"

text \<open>The default implementation of lines 214--216.\<close>

definition getChunk :: "update \<Rightarrow> error + Chunk" where
  "getChunk x = Inl NotImplemented"

text \<open>
  The call \<^verbatim>\<open>source.getChunk(update)\<close> of line 105 is dispatched on the class of the
  source. The overriding classes are outside this file; an override is modelled as
  constructing a chunk of this source with the constructor of lines 28--30.
\<close>

definition source_getChunk :: "nat \<Rightarrow> ChunkSource \<Rightarrow> update \<Rightarrow> error + Chunk" where
  "source_getChunk rpcId src x =
     (if overridesGetChunk src then Inr (new_Chunk rpcId) else getChunk x)"

text \<open>
  A class that can be passed to \<^verbatim>\<open>getChunkSource\<close> (the interface
  \<^verbatim>\<open>ChunkSourceConstructor\<close>, lines 154--157): the identity of the class object, its
  static method \<^verbatim>\<open>encodeOptions\<close>, and whether its instances override \<^verbatim>\<open>getChunk\<close>.
\<close>

record ChunkSourceConstructor =
  objectId :: string
  encodeOptions :: "jsobject \<Rightarrow> jsobject"
  instancesOverrideGetChunk :: bool

text \<open>
  Modelled from the spec: \<^verbatim>\<open>getObjectId\<close> (\<^verbatim>\<open>neuroglancer/util/object_id\<close>) is not among
  the sources; it gives ``a stable identity of container-type'', which is the identity
  that the class value carries.
\<close>

definition getObjectId :: "ChunkSourceConstructor \<Rightarrow> string" where
  "getObjectId constructorFunction = objectId constructorFunction"

text \<open>\<^verbatim>\<open>ChunkSource.encodeOptions\<close>, lines 218--220.\<close>

definition ChunkSource_encodeOptions :: "jsobject \<Rightarrow> jsobject" where
  "ChunkSource_encodeOptions options = []"

text \<open>The class \<^verbatim>\<open>ChunkSource\<close> itself; \<open>oid\<close> is its object identity.\<close>

definition ChunkSource_class :: "string \<Rightarrow> ChunkSourceConstructor" where
  "ChunkSource_class oid =
     \<lparr>objectId = oid, encodeOptions = ChunkSource_encodeOptions,
      instancesOverrideGetChunk = False\<rparr>"

text \<open>
  The class \<^verbatim>\<open>C\<close> that \<^verbatim>\<open>WithParameters(Base, parametersConstructor)\<close> returns (lines
  223--246): \<^verbatim>\<open>encodeOptions\<close> of lines 239--243, everything else inherited from
  \<^verbatim>\<open>Base\<close>. Every call of \<^verbatim>\<open>WithParameters\<close> makes a new class, with an identity of its
  own (\<open>oid\<close>).
\<close>

definition WithParameters_encodeOptions ::
  "ChunkSourceConstructor \<Rightarrow> jsobject \<Rightarrow> jsobject" where
  "WithParameters_encodeOptions Base options =
     (let encoding = encodeOptions Base options
      in set_prop ''parameters'' (get_prop options ''parameters'') encoding)"

definition WithParameters :: "ChunkSourceConstructor \<Rightarrow> string \<Rightarrow> ChunkSourceConstructor" where
  "WithParameters Base oid =
     \<lparr>objectId = oid, encodeOptions = WithParameters_encodeOptions Base,
      instancesOverrideGetChunk = instancesOverrideGetChunk Base\<rparr>"

subsection \<open>The state of the frontend\<close>

text \<open>
  Modelled from the spec: \<^verbatim>\<open>AvailableCapacity\<close> (\<^verbatim>\<open>neuroglancer/chunk_manager/base\<close>)
  is not among the sources; ``each tier tracks \<open>(used, total)\<close>''.
\<close>

record AvailableCapacity =
  used :: nat
  total :: nat

text \<open>
  One \<^verbatim>\<open>ChunkQueueManager\<close> with its \<^verbatim>\<open>ChunkManager\<close>, and the objects they reach.

  \<^item> \<open>visibleChunksChanged\<close>: the number of \<^verbatim>\<open>visibleChunksChanged.dispatch()\<close> calls made
    so far (the signal of line 47).
  \<^item> \<open>pendingChunkUpdates\<close>, \<open>pendingChunkUpdatesTail\<close>: the references of lines 48--49, as
    addresses of update records; \<open>None\<close> is \<^verbatim>\<open>null\<close>.
  \<^item> \<open>chunkUpdateDeadline\<close>, \<open>chunkUpdateDelay\<close>: lines 55 and 57, in milliseconds.
  \<^item> \<open>gpuMemory\<close>, \<open>systemMemory\<close>, \<open>download\<close>: the capacities handed to the constructor
    (lines 59--63), which only serialises them for the backend counterpart (lines 65--69).
  \<^item> \<open>timeouts\<close>: the delays of the \<^verbatim>\<open>setTimeout(processPendingChunkUpdates, delay)\<close> calls
    made so far, in call order.
  \<^item> \<open>updates\<close>: the store of the update records received so far, by address;
    \<open>nextUpdate\<close>: their \<^verbatim>\<open>nextUpdate\<close> property (absent: \<^verbatim>\<open>undefined\<close>);
    \<open>nextUpdateAddr\<close>: the address of the next record to arrive.
  \<^item> \<open>objects\<close>: the RPC object table, restricted to chunk sources; \<open>nextRpcId\<close>: the
    id of the next shared object.
  \<^item> \<open>memoize\<close>: the \<^verbatim>\<open>StringMemoize\<close> of line 161, from key to the RPC id of the source.
\<close>

record world =
  visibleChunksChanged :: nat
  pendingChunkUpdates :: "nat option"
  pendingChunkUpdatesTail :: "nat option"
  chunkUpdateDeadline :: "int option"
  chunkUpdateDelay :: int
  gpuMemory :: AvailableCapacity
  systemMemory :: AvailableCapacity
  download :: AvailableCapacity
  timeouts :: "int list"
  updates :: "nat \<rightharpoonup> update"
  nextUpdate :: "nat \<rightharpoonup> nat"
  nextUpdateAddr :: nat
  objects :: "nat \<rightharpoonup> ChunkSource"
  nextRpcId :: nat
  memoize :: "string \<rightharpoonup> nat"

text \<open>
  The constructors of \<^verbatim>\<open>ChunkQueueManager\<close> (lines 47--70) and of \<^verbatim>\<open>ChunkManager\<close>
  (lines 161--172): nothing pending, no deadline, a delay of 30 ms, no source.
\<close>

definition new_world ::
  "AvailableCapacity \<Rightarrow> AvailableCapacity \<Rightarrow> AvailableCapacity \<Rightarrow> world" where
  "new_world gpu sys dl =
     \<lparr>visibleChunksChanged = 0,
      pendingChunkUpdates = None,
      pendingChunkUpdatesTail = None,
      chunkUpdateDeadline = None,
      chunkUpdateDelay = 30,
      gpuMemory = gpu, systemMemory = sys, download = dl,
      timeouts = [],
      updates = Map.empty, nextUpdate = Map.empty, nextUpdateAddr = 0,
      objects = Map.empty, nextRpcId = 0,
      memoize = Map.empty\<rparr>"

text \<open>
  Modelled from the spec: \<^verbatim>\<open>RPC.get\<close> (\<^verbatim>\<open>neuroglancer/worker_rpc\<close>) is not among the
  sources; it ``resolves'' the source of a record from the id that the record carries,
  and gives \<^verbatim>\<open>undefined\<close> (\<open>None\<close>) for an id that names no object.
\<close>

definition RPC_get :: "world \<Rightarrow> nat \<Rightarrow> ChunkSource option" where
  [simp]: "RPC_get s rpcId = objects s rpcId"

subsection \<open>ChunkQueueManager (lines 72--132)\<close>

definition setTimeout :: "int \<Rightarrow> world \<Rightarrow> world" where
  "setTimeout delay s = s\<lparr>timeouts := timeouts s @ [delay]\<rparr>"

text \<open>\<open>now\<close> is the value of \<^verbatim>\<open>Date.now()\<close> at line 75.\<close>

definition scheduleChunkUpdate :: "int \<Rightarrow> world \<Rightarrow> world" where
  "scheduleChunkUpdate now s =
     (let deadline = chunkUpdateDeadline s;
          delay = (if deadline = None \<or> now < the deadline then 0 else chunkUpdateDelay s)
      in setTimeout delay s)"

text \<open>Writing a chunk that was changed in place back under its key.\<close>

definition put_chunk :: "nat \<Rightarrow> string \<Rightarrow> Chunk \<Rightarrow> world \<Rightarrow> world" where
  "put_chunk rpcId key chunk s =
     (case objects s rpcId of
        None \<Rightarrow> s
      | Some src \<Rightarrow> s\<lparr>objects := (objects s)(rpcId \<mapsto> addChunk key chunk src)\<rparr>)"

text \<open>
  Lines 102--109: the chunk that the record is about, made by the source for a record
  flagged \<^verbatim>\<open>new\<close> and looked up otherwise. A missing chunk is \<^verbatim>\<open>undefined\<close>, and reading
  its \<^verbatim>\<open>state\<close> at line 110 is a \<^verbatim>\<open>TypeError\<close>.
\<close>

definition resolveChunk ::
  "update \<Rightarrow> ChunkSource \<Rightarrow> world \<Rightarrow> (error \<times> world) + (Chunk \<times> world)" where
  "resolveChunk update src s =
     (let key = upd_id update in
      if upd_new update then
        (case source_getChunk (upd_source update) src update of
           Inl e \<Rightarrow> Inl (e, s)
         | Inr chunk \<Rightarrow>
             Inr (chunk, s\<lparr>objects := (objects s)(upd_source update \<mapsto> addChunk key chunk src)\<rparr>))
      else
        (case chunks src key of
           None \<Rightarrow> Inl (TypeError, s)
         | Some chunk \<Rightarrow> Inr (chunk, s)))"

text \<open>Lines 110--124: the transition of the chunk to the state of the record.\<close>

definition applyState ::
  "update \<Rightarrow> Chunk \<Rightarrow> world \<Rightarrow> (error \<times> world) + world" where
  "applyState update chunk s =
     (let newState = upd_state update; oldState = state chunk in
      if newState \<noteq> oldState then
        (case newState of
           GPU_MEMORY \<Rightarrow>
             Inr ((put_chunk (upd_source update) (upd_id update) (copyToGPU chunk) s)
                    \<lparr>visibleChunksChanged := Suc (visibleChunksChanged s)\<rparr>)
         | SYSTEM_MEMORY \<Rightarrow>
             Inr (put_chunk (upd_source update) (upd_id update) (freeGPUMemory chunk) s)
         | _ \<Rightarrow> Inl (InvalidChunkState newState, s))
      else Inr s)"

text \<open>
  Lines 91--125: one record applied. If \<^verbatim>\<open>rpc.get\<close> finds no object, \<^verbatim>\<open>source\<close> is
  \<^verbatim>\<open>undefined\<close> and its first use (line 100, 105 or 108) is a \<^verbatim>\<open>TypeError\<close>.
\<close>

definition applyUpdate :: "update \<Rightarrow> world \<Rightarrow> (error \<times> world) + world" where
  "applyUpdate update s =
     (case RPC_get s (upd_source update) of
        None \<Rightarrow> Inl (TypeError, s)
      | Some src \<Rightarrow>
          let newState = upd_state update in
          if newState = EXPIRED then
            Inr (s\<lparr>objects := (objects s)(upd_source update \<mapsto> deleteChunk (upd_id update) src)\<rparr>)
          else
            (case resolveChunk update src s of
               Inl es \<Rightarrow> Inl es
             | Inr (chunk, s1) \<Rightarrow> applyState update chunk s1))"

text \<open>
  Lines 83--84: a deadline is set and the clock, read as \<open>now\<close>, is past it.
\<close>

definition deadline_passed :: "int \<Rightarrow> world \<Rightarrow> bool" where
  "deadline_passed now s =
     (let deadline = chunkUpdateDeadline s in deadline \<noteq> None \<and> now > the deadline)"

text \<open>
  Lines 126--131: the record at address \<open>a\<close>, which was the head, leaves the queue.
  \<open>now'\<close> is the value of \<^verbatim>\<open>Date.now()\<close> at line 75.
\<close>

definition popUpdate :: "int \<Rightarrow> nat \<Rightarrow> world \<Rightarrow> world" where
  "popUpdate now' a s =
     (let nextUpdate' = nextUpdate s a;
          s1 = s\<lparr>pendingChunkUpdates := nextUpdate'\<rparr>
      in if nextUpdate' \<noteq> None
         then scheduleChunkUpdate now' s1
         else s1\<lparr>pendingChunkUpdatesTail := None\<rparr>)"

text \<open>
  Lines 82--132. \<open>now\<close> is the value of \<^verbatim>\<open>Date.now()\<close> at line 84 and \<open>now'\<close> the value
  at line 75, when the tick reschedules itself. With nothing pending \<^verbatim>\<open>update\<close> is
  \<^verbatim>\<open>null\<close> and line 91 is a \<^verbatim>\<open>TypeError\<close>; the model gives the same for a reference
  to a record that the store does not hold, which no queue satisfying \<open>pending\<close> (below)
  contains. An error leaves the function before line 126: the record stays at the head
  of the queue and no timer is set.
\<close>

definition processPendingChunkUpdates ::
  "int \<Rightarrow> int \<Rightarrow> world \<Rightarrow> (error \<times> world) + world" where
  "processPendingChunkUpdates now now' s =
     (if deadline_passed now s then
        Inr (setTimeout (chunkUpdateDelay s) s)
      else
        (case pendingChunkUpdates s of
           None \<Rightarrow> Inl (TypeError, s)
         | Some a \<Rightarrow>
            (case updates s a of
               None \<Rightarrow> Inl (TypeError, s)
             | Some update \<Rightarrow>
                (case applyUpdate update s of
                   Inl es \<Rightarrow> Inl es
                 | Inr s1 \<Rightarrow> Inr (popUpdate now' a s1)))))"

subsection \<open>The RPC handler \<^verbatim>\<open>Chunk.update\<close> (lines 135--152)\<close>

text \<open>
  The received object \<^verbatim>\<open>x\<close> is a new object: it takes the next address of the store,
  with no \<^verbatim>\<open>nextUpdate\<close> property. If \<^verbatim>\<open>this.get\<close> finds no source, line 142 is a
  \<^verbatim>\<open>TypeError\<close> and nothing is queued. \<open>now\<close> is \<^verbatim>\<open>Date.now()\<close> at line 75.
\<close>

definition Chunk_update :: "int \<Rightarrow> update \<Rightarrow> world \<Rightarrow> (error \<times> world) + world" where
  "Chunk_update now x s =
     (let a = nextUpdateAddr s;
          s0 = s\<lparr>updates := (updates s)(a \<mapsto> x), nextUpdateAddr := Suc a\<rparr>
      in case RPC_get s0 (upd_source x) of
           None \<Rightarrow> Inl (TypeError, s0)
         | Some _ \<Rightarrow>
            (case pendingChunkUpdatesTail s0 of
               None \<Rightarrow>
                 Inr (scheduleChunkUpdate now
                        (s0\<lparr>pendingChunkUpdates := Some a, pendingChunkUpdatesTail := Some a\<rparr>))
             | Some pendingTail \<Rightarrow>
                 Inr (s0\<lparr>nextUpdate := (nextUpdate s0)(pendingTail \<mapsto> a),
                         pendingChunkUpdatesTail := Some a\<rparr>)))"

subsection \<open>ChunkManager (lines 159--185)\<close>

text \<open>
  Modelled from the spec: \<^verbatim>\<open>StringMemoize.get\<close> (\<^verbatim>\<open>neuroglancer/util/memoize\<close>) is not
  among the sources; ``if an entry exists for that key, return it (increments logical
  sharing, no reconstruction); otherwise construct a new container, register it with the
  registry, and cache it under that key''. \<open>addRef\<close> is the increment of the reference
  count.
\<close>

definition addRef :: "nat \<Rightarrow> world \<Rightarrow> world" where
  "addRef rpcId s =
     (case objects s rpcId of
        None \<Rightarrow> s
      | Some src \<Rightarrow> s\<lparr>objects := (objects s)(rpcId \<mapsto> src\<lparr>refCount := Suc (refCount src)\<rparr>)\<rparr>)"

definition StringMemoize_get ::
  "string \<Rightarrow> (world \<Rightarrow> nat \<times> world) \<Rightarrow> world \<Rightarrow> nat \<times> world" where
  "StringMemoize_get key getter s =
     (case memoize s key of
        Some obj \<Rightarrow> (obj, addRef obj s)
      | None \<Rightarrow>
          (case getter s of
             (obj, s1) \<Rightarrow> (obj, s1\<lparr>memoize := (memoize s1)(key \<mapsto> obj)\<rparr>)))"

text \<open>
  The constructor of \<^verbatim>\<open>ChunkSource\<close> (lines 188--192) for an instance of the given
  class: no chunks. The new object is referenced once (the spec's ``reference-counted''
  entries; \<^verbatim>\<open>RefCounted\<close> is not among the sources).
\<close>

definition new_ChunkSource :: "ChunkSourceConstructor \<Rightarrow> ChunkSource" where
  "new_ChunkSource constructorFunction =
     \<lparr>chunks = Map.empty,
      overridesGetChunk = instancesOverrideGetChunk constructorFunction,
      refCount = 1\<rparr>"

text \<open>
  Modelled from the spec: \<^verbatim>\<open>SharedObject.initializeCounterpart\<close>
  (\<^verbatim>\<open>neuroglancer/worker_rpc\<close>) is not among the sources; it ``registers'' the new
  object: the object takes the next RPC id and enters the RPC object table.
\<close>

definition initializeCounterpart :: "ChunkSource \<Rightarrow> world \<Rightarrow> nat \<times> world" where
  "initializeCounterpart obj s =
     (let rpcId = nextRpcId s
      in (rpcId, s\<lparr>objects := (objects s)(rpcId \<mapsto> obj), nextRpcId := Suc rpcId\<rparr>))"

text \<open>The getter of lines 179--183.\<close>

definition new_source :: "ChunkSourceConstructor \<Rightarrow> world \<Rightarrow> nat \<times> world" where
  "new_source constructorFunction s =
     (let newSource = new_ChunkSource constructorFunction
      in initializeCounterpart newSource s)"

text \<open>
  Lines 176--178, the key of a source. \<^verbatim>\<open>stableStringify\<close>
  (\<^verbatim>\<open>neuroglancer/util/json\<close>) is not among the sources and the spec leaves it a black
  box (``a deterministic serializer''): it is a parameter.
\<close>

definition sourceKey ::
  "(jsobject \<Rightarrow> string) \<Rightarrow> ChunkSourceConstructor \<Rightarrow> jsobject \<Rightarrow> string" where
  "sourceKey stableStringify constructorFunction options =
     (let keyObject = encodeOptions constructorFunction options;
          keyObject' = set_prop ''constructorId'' (JString (getObjectId constructorFunction)) keyObject
      in stableStringify keyObject')"

text \<open>Lines 174--184. The result is the source, as its RPC id, and the new state.\<close>

definition getChunkSource ::
  "(jsobject \<Rightarrow> string) \<Rightarrow> ChunkSourceConstructor \<Rightarrow> jsobject \<Rightarrow> world \<Rightarrow> nat \<times> world" where
  "getChunkSource stableStringify constructorFunction options s =
     (let key = sourceKey stableStringify constructorFunction options
      in StringMemoize_get key (new_source constructorFunction) s)"

subsection \<open>Runs of the frontend\<close>

text \<open>
  What can happen to the frontend, one event at a time: a timer fires and runs
  \<^verbatim>\<open>processPendingChunkUpdates\<close> (with the two clock readings), an update record arrives,
  a source is acquired, or the owner of the queue manager writes the public field
  \<^verbatim>\<open>chunkUpdateDeadline\<close>. An error thrown by a callback ends that callback only: the
  state it had reached stays, and the next event runs on it. A run allows a tick at any
  moment, also when no timer is pending.
\<close>

datatype action =
    Tick int int
  | Receive int update
  | Acquire ChunkSourceConstructor jsobject
  | SetDeadline "int option"

definition state_after :: "(error \<times> world) + world \<Rightarrow> world" where
  "state_after r = (case r of Inl (e, s) \<Rightarrow> s | Inr s \<Rightarrow> s)"

fun step :: "(jsobject \<Rightarrow> string) \<Rightarrow> action \<Rightarrow> world \<Rightarrow> world" where
  "step f (Tick now now') s = state_after (processPendingChunkUpdates now now' s)"
| "step f (Receive now x) s = state_after (Chunk_update now x s)"
| "step f (Acquire c options) s = snd (getChunkSource f c options s)"
| "step f (SetDeadline d) s = s\<lparr>chunkUpdateDeadline := d\<rparr>"

fun run :: "(jsobject \<Rightarrow> string) \<Rightarrow> action list \<Rightarrow> world \<Rightarrow> world" where
  "run f [] s = s"
| "run f (a # as) s = run f as (step f a s)"

subsection \<open>Invariants\<close>

text \<open>Every stored chunk is in system memory or in GPU memory.\<close>

definition chunk_states_ok :: "world \<Rightarrow> bool" where
  "chunk_states_ok s =
     (\<forall>rpcId src key chunk.
        objects s rpcId = Some src \<longrightarrow> chunks src key = Some chunk \<longrightarrow>
        state chunk = SYSTEM_MEMORY \<or> state chunk = GPU_MEMORY)"

text \<open>
  \<open>linked nxt p as e\<close>: following the \<^verbatim>\<open>nextUpdate\<close> properties from the reference \<open>p\<close>
  visits exactly the records \<open>as\<close>, in this order, and ends at the reference \<open>e\<close>.
\<close>

fun linked :: "(nat \<rightharpoonup> nat) \<Rightarrow> nat option \<Rightarrow> nat list \<Rightarrow> nat option \<Rightarrow> bool" where
  "linked nxt p [] e = (p = e)"
| "linked nxt p (a # as) e = (p = Some a \<and> linked nxt (nxt a) as e)"

text \<open>
  \<open>pending s q\<close>: the pending queue of \<open>s\<close> holds exactly the records at the addresses
  \<open>q\<close>, head first: they are linked from \<^verbatim>\<open>pendingChunkUpdates\<close> to \<^verbatim>\<open>null\<close>, the tail
  reference is the last of them (\<^verbatim>\<open>null\<close> when there is none), all are stored, and no
  address that is still to be handed out has a \<^verbatim>\<open>nextUpdate\<close> property.
\<close>

definition pending :: "world \<Rightarrow> nat list \<Rightarrow> bool" where
  "pending s q =
     (linked (nextUpdate s) (pendingChunkUpdates s) q None
      \<and> distinct q
      \<and> pendingChunkUpdatesTail s = (if q = [] then None else Some (last q))
      \<and> (\<forall>a \<in> set q. a < nextUpdateAddr s \<and> updates s a \<noteq> None)
      \<and> (\<forall>a. nextUpdateAddr s \<le> a \<longrightarrow> nextUpdate s a = None))"

text \<open>
  The memoized sources are registered objects, and no two keys share a source.
\<close>

definition registry_ok :: "world \<Rightarrow> bool" where
  "registry_ok s =
     ((\<forall>k r. memoize s k = Some r \<longrightarrow> r < nextRpcId s \<and> objects s r \<noteq> None)
      \<and> (\<forall>k k' r. memoize s k = Some r \<longrightarrow> memoize s k' = Some r \<longrightarrow> k = k'))"

text \<open>
  The chunk that lines 102--109 give for a record, if they give one, before line 110
  reads its state: a new chunk for a record flagged \<^verbatim>\<open>new\<close>, the stored one otherwise.
\<close>

definition chunk_of :: "world \<Rightarrow> update \<Rightarrow> Chunk option" where
  "chunk_of s update =
     (case objects s (upd_source update) of
        None \<Rightarrow> None
      | Some src \<Rightarrow>
          (case resolveChunk update src s of Inl es \<Rightarrow> None | Inr (chunk, s1) \<Rightarrow> Some chunk))"

text \<open>The state of the chunk that the source \<open>rpcId\<close> stores under \<open>key\<close>, if any.\<close>

definition chunk_state :: "world \<Rightarrow> nat \<Rightarrow> string \<Rightarrow> ChunkState option" where
  "chunk_state s rpcId key =
     (case objects s rpcId of
        None \<Rightarrow> None
      | Some src \<Rightarrow> (case chunks src key of None \<Rightarrow> None | Some chunk \<Rightarrow> Some (state chunk)))"

subsection \<open>Scenarios\<close>

text \<open>
  Concrete states, after the scenarios of the specification: a frontend with one source
  whose class creates chunks on the frontend (RPC id 0), and the records of scenarios A
  to D.
\<close>

definition capacity0 :: AvailableCapacity where
  "capacity0 = \<lparr>used = 0, total = 100\<rparr>"

definition frontend_class :: ChunkSourceConstructor where
  "frontend_class =
     \<lparr>objectId = ''o7'', encodeOptions = ChunkSource_encodeOptions,
      instancesOverrideGetChunk = True\<rparr>"

definition scenario_start :: world where
  "scenario_start = snd (new_source frontend_class (new_world capacity0 capacity0 capacity0))"

definition promote_c1 :: update where
  "promote_c1 =
     \<lparr>upd_source = 0, upd_id = ''c1'', upd_state = GPU_MEMORY, upd_new = True,
      chunkDataSize = 5\<rparr>"

text \<open>Scenario A, with the record queued and not yet processed.\<close>

definition scenario_A :: world where
  "scenario_A = state_after (Chunk_update 0 promote_c1 scenario_start)"

text \<open>Scenario D: the same with a deadline at time 100.\<close>

definition scenario_D :: world where
  "scenario_D = scenario_A\<lparr>chunkUpdateDeadline := Some 100\<rparr>"

text \<open>Scenario C: a record that is new and expired at once.\<close>

definition expire_c2 :: update where
  "expire_c2 =
     \<lparr>upd_source = 0, upd_id = ''c2'', upd_state = EXPIRED, upd_new = True, chunkDataSize = 0\<rparr>"

definition scenario_C :: world where
  "scenario_C = state_after (Chunk_update 0 expire_c2 scenario_start)"

text \<open>A record that is not new, for a chunk that the source does not hold.\<close>

definition demote_c1 :: update where
  "demote_c1 =
     \<lparr>upd_source = 0, upd_id = ''c1'', upd_state = SYSTEM_MEMORY, upd_new = False,
      chunkDataSize = 5\<rparr>"

definition scenario_missing :: world where
  "scenario_missing = state_after (Chunk_update 0 demote_c1 scenario_start)"

text \<open>Scenario B: the same record arrives right after the one of scenario A.\<close>

definition scenario_AB :: world where
  "scenario_AB = state_after (Chunk_update 0 demote_c1 scenario_A)"

text \<open>
  Scenario A on a source of the class \<^verbatim>\<open>ChunkSource\<close> itself, which keeps the default
  \<^verbatim>\<open>getChunk\<close>.
\<close>

definition backend_start :: world where
  "backend_start =
     snd (new_source (ChunkSource_class ''o1'') (new_world capacity0 capacity0 capacity0))"

definition backend_A :: world where
  "backend_A = state_after (Chunk_update 0 promote_c1 backend_start)"

text \<open>A record with a target state that is none of the three.\<close>

definition invalid_c1 :: update where
  "invalid_c1 =
     \<lparr>upd_source = 0, upd_id = ''c1'', upd_state = OTHER_STATE 3, upd_new = True,
      chunkDataSize = 5\<rparr>"

definition scenario_invalid :: world where
  "scenario_invalid = state_after (Chunk_update 0 invalid_c1 scenario_start)"

text \<open>
  Scenario E: a class with parameters, and options with equal and with different
  parameters. For \<^verbatim>\<open>stableStringify\<close> the scenarios take a serializer that gives
  different strings for different key objects.
\<close>

definition world0 :: world where
  "world0 = new_world capacity0 capacity0 capacity0"

definition params_class :: ChunkSourceConstructor where
  "params_class = WithParameters (ChunkSource_class ''o1'') ''o2''"

definition options_E :: jsobject where
  "options_E = [(''parameters'', JObject [(''a'', JNumber 1), (''b'', JNumber 2)])]"

definition options_E' :: jsobject where
  "options_E' = [(''parameters'', JObject [(''a'', JNumber 1), (''b'', JNumber 3)])]"

definition sample_stringify :: "jsobject \<Rightarrow> string" where
  "sample_stringify obj = replicate (to_nat obj) (CHR ''1'')"

section \<open>Properties\<close>

subsection \<open>The scenarios, evaluated\<close>

lemmas scenario_defs =
  scenario_start_def scenario_A_def scenario_C_def scenario_D_def scenario_missing_def
  backend_start_def backend_A_def scenario_invalid_def scenario_AB_def world0_def
  promote_c1_def expire_c2_def demote_c1_def invalid_c1_def capacity0_def frontend_class_def
  ChunkSource_class_def
  new_world_def new_source_def initializeCounterpart_def new_ChunkSource_def Chunk_update_def state_after_def scheduleChunkUpdate_def
  setTimeout_def deadline_passed_def

subsection \<open>What one record changes\<close>

text \<open>
  Applying a record changes the sources and the count of dispatches, and nothing else:
  the queue, the stores of records, the timers, the capacities and the registry stay.
\<close>

lemma put_chunk_frame:
  "(put_chunk r k c s)\<lparr>objects := os\<rparr> = s\<lparr>objects := os\<rparr>"
  by (simp add: put_chunk_def split: option.splits)

lemma resolveChunk_Inl_state: "resolveChunk u src s = Inl (e, s1) \<Longrightarrow> s1 = s"
  by (auto simp: resolveChunk_def Let_def split: if_splits sum.splits option.splits)

lemma resolveChunk_frame:
  "resolveChunk u src s = Inr (c, s1) \<Longrightarrow> s1\<lparr>objects := os\<rparr> = s\<lparr>objects := os\<rparr>"
  by (auto simp: resolveChunk_def Let_def split: if_splits sum.splits option.splits)

lemma applyState_Inl_state: "applyState u c s = Inl (e, s1) \<Longrightarrow> s1 = s"
  by (auto simp: applyState_def Let_def split: if_splits ChunkState.splits)

lemma applyState_frame:
  "applyState u c s = Inr s1 \<Longrightarrow>
     s1\<lparr>objects := os, visibleChunksChanged := n\<rparr> = s\<lparr>objects := os, visibleChunksChanged := n\<rparr>"
  using put_chunk_frame [where r = "upd_source u" and k = "upd_id u" and s = s and os = os,
      THEN arg_cong [where f = "visibleChunksChanged_update (\<lambda>_. n)"]]
  by (auto simp: applyState_def Let_def split: if_splits ChunkState.splits)

lemma applyUpdate_frame:
  "(state_after (applyUpdate u s))\<lparr>objects := os, visibleChunksChanged := n\<rparr>
     = s\<lparr>objects := os, visibleChunksChanged := n\<rparr>"
proof (cases "objects s (upd_source u)")
  case None
  then show ?thesis by (simp add: applyUpdate_def state_after_def)
next
  case (Some src)
  show ?thesis
  proof (cases "upd_state u = EXPIRED")
    case True
    with Some show ?thesis by (simp add: applyUpdate_def state_after_def)
  next
    case False
    show ?thesis
    proof (cases "resolveChunk u src s")
      case (Inl es)
      then obtain e s1 where "resolveChunk u src s = Inl (e, s1)" by (cases es) auto
      with resolveChunk_Inl_state [OF this] Some False show ?thesis
        by (simp add: applyUpdate_def state_after_def)
    next
      case (Inr cs)
      then obtain c s1 where r: "resolveChunk u src s = Inr (c, s1)" by (cases cs) auto
      have f1: "s1\<lparr>objects := os, visibleChunksChanged := n\<rparr>
                  = s\<lparr>objects := os, visibleChunksChanged := n\<rparr>"
        using resolveChunk_frame [OF r, where os = os,
            THEN arg_cong [where f = "visibleChunksChanged_update (\<lambda>_. n)"]]
        by simp
      show ?thesis
      proof (cases "applyState u c s1")
        case (Inl es)
        then obtain e s2 where a: "applyState u c s1 = Inl (e, s2)" by (cases es) auto
        with applyState_Inl_state [OF a] r f1 Some False show ?thesis
          by (simp add: applyUpdate_def state_after_def)
      next
        case (Inr s2)
        with applyState_frame [OF Inr, where os = os and n = n] r f1 Some False show ?thesis
          by (simp add: applyUpdate_def state_after_def)
      qed
    qed
  qed
qed

text \<open>The count of dispatches, layer by layer.\<close>

lemma put_chunk_visible [simp]:
  "visibleChunksChanged (put_chunk r k c s) = visibleChunksChanged s"
  using put_chunk_frame [where os = Map.empty, THEN arg_cong [where f = visibleChunksChanged]]
  by simp

lemma resolveChunk_visible:
  "resolveChunk u src s = Inr (c, s1) \<Longrightarrow> visibleChunksChanged s1 = visibleChunksChanged s"
  using resolveChunk_frame [where os = Map.empty, THEN arg_cong [where f = visibleChunksChanged]]
  by simp

lemma applyState_visible:
  "visibleChunksChanged (state_after (applyState u c s)) =
     visibleChunksChanged s + (if upd_state u = GPU_MEMORY \<and> state c \<noteq> GPU_MEMORY then 1 else 0)"
  by (cases "upd_state u") (auto simp: applyState_def state_after_def Let_def)

lemma applyUpdate_visible:
  "visibleChunksChanged (state_after (applyUpdate u s)) =
     visibleChunksChanged s
     + (if upd_state u = GPU_MEMORY \<and> (\<exists>c. chunk_of s u = Some c \<and> state c \<noteq> GPU_MEMORY)
        then 1 else 0)"
proof (cases "objects s (upd_source u)")
  case None
  then show ?thesis by (simp add: applyUpdate_def state_after_def chunk_of_def)
next
  case (Some src)
  show ?thesis
  proof (cases "upd_state u = EXPIRED")
    case True
    with Some show ?thesis by (simp add: applyUpdate_def state_after_def)
  next
    case False
    show ?thesis
    proof (cases "resolveChunk u src s")
      case (Inl es)
      then obtain e s1 where r: "resolveChunk u src s = Inl (e, s1)" by (cases es) auto
      with resolveChunk_Inl_state [OF r] Some False show ?thesis
        by (simp add: applyUpdate_def state_after_def chunk_of_def)
    next
      case (Inr cs)
      then obtain c s1 where r: "resolveChunk u src s = Inr (c, s1)" by (cases cs) auto
      have "state_after (applyUpdate u s) = state_after (applyState u c s1)"
        using Some False r by (simp add: applyUpdate_def)
      moreover have "chunk_of s u = Some c"
        using Some r by (simp add: chunk_of_def)
      ultimately show ?thesis
        using applyState_visible [of u c s1] resolveChunk_visible [OF r] by simp
    qed
  qed
qed

text \<open>Taking the record from the queue, and the tick that runs.\<close>

lemma popUpdate_visible [simp]:
  "visibleChunksChanged (popUpdate now' a s) = visibleChunksChanged s"
  by (simp add: popUpdate_def scheduleChunkUpdate_def setTimeout_def Let_def)

lemma popUpdate_objects [simp]: "objects (popUpdate now' a s) = objects s"
  by (simp add: popUpdate_def scheduleChunkUpdate_def setTimeout_def Let_def)

lemma popUpdate_pending [simp]: "pendingChunkUpdates (popUpdate now' a s) = nextUpdate s a"
  by (simp add: popUpdate_def scheduleChunkUpdate_def setTimeout_def Let_def)

lemma tick_running:
  assumes "\<not> deadline_passed now s" and "pendingChunkUpdates s = Some a"
    and "updates s a = Some u"
  shows "processPendingChunkUpdates now now' s =
           (case applyUpdate u s of Inl es \<Rightarrow> Inl es | Inr s1 \<Rightarrow> Inr (popUpdate now' a s1))"
  using assms by (simp add: processPendingChunkUpdates_def)

subsection \<open>The deadline\<close>

text \<open>
  C1. If a deadline is set and the clock read at line 84 is past it, the tick returns
  with the state as it was, but for one more timer, set to \<^verbatim>\<open>chunkUpdateDelay\<close>: no
  record is taken from the queue, no source and no chunk changes, nothing is dispatched.
\<close>

theorem deadline_passed_defers:
  assumes "chunkUpdateDeadline s = Some deadline" and "deadline < now"
  shows "processPendingChunkUpdates now now' s
           = Inr (s\<lparr>timeouts := timeouts s @ [chunkUpdateDelay s]\<rparr>)"
  using assms by (simp add: processPendingChunkUpdates_def deadline_passed_def setTimeout_def)

theorem deadline_passed_defers_witness:
  "chunkUpdateDeadline scenario_D = Some 100 \<and> (100::int) < 101
   \<and> processPendingChunkUpdates 101 7 scenario_D = Inr (scenario_D\<lparr>timeouts := [0, 30]\<rparr>)"
  using deadline_passed_defers [of scenario_D 100 101 7]
  by (simp add: scenario_defs)

subsection \<open>The visibility notification\<close>

lemma chunk_state_cong: "objects s' = objects s \<Longrightarrow> chunk_state s' r k = chunk_state s r k"
  by (simp add: chunk_state_def)

lemma resolveChunk_source:
  "resolveChunk u src s = Inr (c, s1) \<Longrightarrow> objects s (upd_source u) = Some src \<Longrightarrow>
     objects s1 (upd_source u) \<noteq> None"
  by (auto simp: resolveChunk_def Let_def split: if_splits sum.splits option.splits)

lemma put_chunk_state:
  "objects s r \<noteq> None \<Longrightarrow> chunk_state (put_chunk r k c s) r k = Some (state c)"
  by (auto simp: put_chunk_def chunk_state_def addChunk_def)

lemma applyUpdate_promotes:
  assumes "upd_state u = GPU_MEMORY" and "chunk_of s u = Some c" and "state c \<noteq> GPU_MEMORY"
  shows "\<exists>s'. applyUpdate u s = Inr s' \<and> chunk_state s' (upd_source u) (upd_id u) = Some GPU_MEMORY"
proof -
  from assms(2) obtain src s1 where src: "objects s (upd_source u) = Some src"
    and r: "resolveChunk u src s = Inr (c, s1)"
    by (auto simp: chunk_of_def split: option.splits sum.splits)
  have "chunk_state (put_chunk (upd_source u) (upd_id u) (copyToGPU c) s1) (upd_source u) (upd_id u)
          = Some GPU_MEMORY"
    using put_chunk_state [OF resolveChunk_source [OF r src], of "upd_id u" "copyToGPU c"]
    by (simp add: copyToGPU_def)
  then have "chunk_state ((put_chunk (upd_source u) (upd_id u) (copyToGPU c) s1)
               \<lparr>visibleChunksChanged := Suc (visibleChunksChanged s1)\<rparr>) (upd_source u) (upd_id u)
          = Some GPU_MEMORY"
    by (simp add: chunk_state_def)
  with assms(1,3) src r show ?thesis
    by (simp add: applyUpdate_def applyState_def)
qed

text \<open>
  C3. A tick that is not deferred and finds the record \<open>u\<close> at the head of the queue
  dispatches \<^verbatim>\<open>visibleChunksChanged\<close> once if the target state of \<open>u\<close> is \<^verbatim>\<open>GPU_MEMORY\<close>
  and the chunk of \<open>u\<close> is in another state, and not at all otherwise: not for a target
  \<^verbatim>\<open>SYSTEM_MEMORY\<close>, not when the chunk is in the target state already, not for
  \<^verbatim>\<open>EXPIRED\<close>, and not when the tick fails before it reaches the chunk. When it
  dispatches, the chunk is stored in \<^verbatim>\<open>GPU_MEMORY\<close> afterwards.
\<close>

theorem visibility_dispatch:
  assumes "\<not> deadline_passed now s" and "pendingChunkUpdates s = Some a"
    and "updates s a = Some u"
  shows "visibleChunksChanged (state_after (processPendingChunkUpdates now now' s)) =
           visibleChunksChanged s
           + (if upd_state u = GPU_MEMORY \<and> (\<exists>c. chunk_of s u = Some c \<and> state c \<noteq> GPU_MEMORY)
              then 1 else 0)
       \<and> (upd_state u = GPU_MEMORY \<and> (\<exists>c. chunk_of s u = Some c \<and> state c \<noteq> GPU_MEMORY) \<longrightarrow>
            chunk_state (state_after (processPendingChunkUpdates now now' s))
              (upd_source u) (upd_id u) = Some GPU_MEMORY)"
proof -
  have count: "visibleChunksChanged (state_after (processPendingChunkUpdates now now' s)) =
           visibleChunksChanged s
           + (if upd_state u = GPU_MEMORY \<and> (\<exists>c. chunk_of s u = Some c \<and> state c \<noteq> GPU_MEMORY)
              then 1 else 0)"
  proof (cases "applyUpdate u s")
    case (Inl es)
    then have "state_after (processPendingChunkUpdates now now' s) = state_after (applyUpdate u s)"
      by (simp add: tick_running [OF assms])
    then show ?thesis by (simp add: applyUpdate_visible)
  next
    case (Inr s1)
    then have "state_after (processPendingChunkUpdates now now' s) = popUpdate now' a s1"
      and "s1 = state_after (applyUpdate u s)"
      by (simp_all add: tick_running [OF assms] state_after_def)
    then show ?thesis by (simp add: applyUpdate_visible)
  qed
  have moved: "chunk_state (state_after (processPendingChunkUpdates now now' s))
              (upd_source u) (upd_id u) = Some GPU_MEMORY"
    if "upd_state u = GPU_MEMORY" and "chunk_of s u = Some c" and "state c \<noteq> GPU_MEMORY" for c
  proof -
    from applyUpdate_promotes [OF that] obtain s1 where ap: "applyUpdate u s = Inr s1"
      and st: "chunk_state s1 (upd_source u) (upd_id u) = Some GPU_MEMORY" by blast
    from ap have "state_after (processPendingChunkUpdates now now' s) = popUpdate now' a s1"
      by (simp add: tick_running [OF assms] state_after_def)
    with st show ?thesis
      by (simp add: chunk_state_cong [of "popUpdate now' a s1" s1])
  qed
  from count moved show ?thesis by blast
qed

theorem visibility_dispatch_witness:
  "\<not> deadline_passed 1 scenario_A \<and> pendingChunkUpdates scenario_A = Some 0
   \<and> updates scenario_A 0 = Some promote_c1
   \<and> visibleChunksChanged scenario_A = 0
   \<and> visibleChunksChanged (state_after (processPendingChunkUpdates 1 1 scenario_A)) = 1
   \<and> chunk_state (state_after (processPendingChunkUpdates 1 1 scenario_A)) 0 ''c1''
       = Some GPU_MEMORY"
  using visibility_dispatch [of 1 scenario_A 0 promote_c1 1]
  by (simp add: scenario_defs chunk_of_def resolveChunk_def source_getChunk_def new_Chunk_def)

subsection \<open>Expired records\<close>

text \<open>
  C5. A tick that is not deferred and finds at the head of the queue a record with
  target state \<^verbatim>\<open>EXPIRED\<close>, for a source that exists, returns normally and leaves every
  source as it was, except that the source of the record no longer maps the chunk id of
  the record. This holds whatever the \<^verbatim>\<open>new\<close> flag of the record and whatever chunk the
  id was mapped to: no chunk is made, nothing is dispatched, and if the id was not mapped
  the sources are unchanged.
\<close>

theorem expired_removes_chunk:
  assumes "\<not> deadline_passed now s" and "pendingChunkUpdates s = Some a"
    and "updates s a = Some u" and "upd_state u = EXPIRED"
    and "objects s (upd_source u) = Some src"
  shows "(\<exists>s'. processPendingChunkUpdates now now' s = Inr s')
       \<and> objects (state_after (processPendingChunkUpdates now now' s))
           = (objects s)(upd_source u \<mapsto> src\<lparr>chunks := (chunks src)(upd_id u := None)\<rparr>)
       \<and> (chunks src (upd_id u) = None \<longrightarrow>
            objects (state_after (processPendingChunkUpdates now now' s)) = objects s)
       \<and> visibleChunksChanged (state_after (processPendingChunkUpdates now now' s))
           = visibleChunksChanged s"
proof -
  have ap: "applyUpdate u s
              = Inr (s\<lparr>objects := (objects s)(upd_source u \<mapsto> deleteChunk (upd_id u) src)\<rparr>)"
    using assms(4,5) by (simp add: applyUpdate_def)
  have noop: "chunks src (upd_id u) = None \<Longrightarrow> (chunks src)(upd_id u := None) = chunks src"
    by (rule ext) simp
  show ?thesis
    using assms(5) noop
    by (auto simp add: tick_running [OF assms(1-3)] ap state_after_def deleteChunk_def
        map_upd_triv)
qed

theorem expired_removes_chunk_witness:
  "\<not> deadline_passed 1 scenario_C \<and> pendingChunkUpdates scenario_C = Some 0
   \<and> updates scenario_C 0 = Some expire_c2 \<and> upd_state expire_c2 = EXPIRED
   \<and> objects scenario_C (upd_source expire_c2)
       = Some \<lparr>chunks = Map.empty, overridesGetChunk = True, refCount = 1\<rparr>
   \<and> (\<exists>s'. processPendingChunkUpdates 1 1 scenario_C = Inr s')
   \<and> objects (state_after (processPendingChunkUpdates 1 1 scenario_C)) = objects scenario_C"
  using expired_removes_chunk [of 1 scenario_C 0 expire_c2
      "\<lparr>chunks = Map.empty, overridesGetChunk = True, refCount = 1\<rparr>" 1]
  by (simp add: scenario_defs)

subsection \<open>The default factory\<close>

lemma resolveChunk_NotImplemented:
  "(\<exists>s1. resolveChunk u src s = Inl (NotImplemented, s1)) \<longleftrightarrow> upd_new u \<and> \<not> overridesGetChunk src"
  by (auto simp: resolveChunk_def source_getChunk_def getChunk_def Let_def split: option.splits)

lemma applyState_not_NotImplemented: "applyState u c s \<noteq> Inl (NotImplemented, s1)"
  by (auto simp: applyState_def Let_def split: ChunkState.splits)

lemma applyUpdate_NotImplemented:
  "(\<exists>s1. applyUpdate u s = Inl (NotImplemented, s1)) \<longleftrightarrow>
     (\<exists>src. objects s (upd_source u) = Some src \<and> upd_new u \<and> upd_state u \<noteq> EXPIRED
            \<and> \<not> overridesGetChunk src)"
proof (cases "objects s (upd_source u)")
  case None
  then show ?thesis by (simp add: applyUpdate_def)
next
  case (Some src)
  show ?thesis
  proof (cases "upd_state u = EXPIRED")
    case True
    with Some show ?thesis by (simp add: applyUpdate_def)
  next
    case False
    show ?thesis
    proof (cases "resolveChunk u src s")
      case (Inl es)
      with Some False resolveChunk_NotImplemented [of u src s] show ?thesis
        by (simp add: applyUpdate_def)
    next
      case (Inr cs)
      then obtain c s1 where r: "resolveChunk u src s = Inr (c, s1)" by (cases cs) auto
      with Some False resolveChunk_NotImplemented [of u src s] show ?thesis
        by (simp add: applyUpdate_def applyState_not_NotImplemented)
    qed
  qed
qed

text \<open>
  C8. The default \<^verbatim>\<open>getChunk\<close> fails with ``Not implemented'' for every argument. A tick
  ends in that error exactly when it is not deferred, the record at the head of the queue
  is flagged \<^verbatim>\<open>new\<close> with a target state other than \<^verbatim>\<open>EXPIRED\<close>, and the source of the
  record exists and does not override \<^verbatim>\<open>getChunk\<close>.
\<close>

theorem default_getChunk_not_implemented:
  "getChunk x = Inl NotImplemented
   \<and> ((\<exists>s1. processPendingChunkUpdates now now' s = Inl (NotImplemented, s1)) \<longleftrightarrow>
        (\<not> deadline_passed now s
         \<and> (\<exists>a u src. pendingChunkUpdates s = Some a \<and> updates s a = Some u
               \<and> objects s (upd_source u) = Some src
               \<and> upd_new u \<and> upd_state u \<noteq> EXPIRED \<and> \<not> overridesGetChunk src)))"
proof -
  have "(\<exists>s1. processPendingChunkUpdates now now' s = Inl (NotImplemented, s1)) \<longleftrightarrow>
        (\<not> deadline_passed now s
         \<and> (\<exists>a u. pendingChunkUpdates s = Some a \<and> updates s a = Some u
               \<and> (\<exists>s1. applyUpdate u s = Inl (NotImplemented, s1))))"
    by (auto simp: processPendingChunkUpdates_def split: option.splits sum.splits)
  then show ?thesis
    by (simp add: getChunk_def applyUpdate_NotImplemented)
qed

theorem default_getChunk_not_implemented_witness:
  "getChunk promote_c1 = Inl NotImplemented
   \<and> (\<exists>s1. processPendingChunkUpdates 1 1 backend_A = Inl (NotImplemented, s1))"
  using default_getChunk_not_implemented [of promote_c1 1 1 backend_A]
  by (simp add: scenario_defs)

subsection \<open>Records for chunks that are not there\<close>

text \<open>
  C10. A tick that is not deferred and finds at the head of the queue a record that is
  not flagged \<^verbatim>\<open>new\<close>, with a target state other than \<^verbatim>\<open>EXPIRED\<close>, for a chunk id that
  its source does not map, fails with a \<^verbatim>\<open>TypeError\<close>: the lookup of line 108 gives
  \<^verbatim>\<open>undefined\<close> and line 110 reads its \<^verbatim>\<open>state\<close>. The state is as before the tick, with
  the record still at the head of the queue.
\<close>

theorem missing_chunk_TypeError:
  assumes "\<not> deadline_passed now s" and "pendingChunkUpdates s = Some a"
    and "updates s a = Some u" and "\<not> upd_new u" and "upd_state u \<noteq> EXPIRED"
    and "objects s (upd_source u) = Some src" and "chunks src (upd_id u) = None"
  shows "processPendingChunkUpdates now now' s = Inl (TypeError, s)"
  using assms(4-7)
  by (simp add: tick_running [OF assms(1-3)] applyUpdate_def resolveChunk_def)

theorem missing_chunk_TypeError_witness:
  "\<not> deadline_passed 1 scenario_missing \<and> pendingChunkUpdates scenario_missing = Some 0
   \<and> updates scenario_missing 0 = Some demote_c1
   \<and> \<not> upd_new demote_c1 \<and> upd_state demote_c1 \<noteq> EXPIRED
   \<and> objects scenario_missing (upd_source demote_c1)
       = Some \<lparr>chunks = Map.empty, overridesGetChunk = True, refCount = 1\<rparr>
   \<and> processPendingChunkUpdates 1 1 scenario_missing = Inl (TypeError, scenario_missing)"
  using missing_chunk_TypeError [of 1 scenario_missing 0 demote_c1
      "\<lparr>chunks = Map.empty, overridesGetChunk = True, refCount = 1\<rparr>" 1]
  by (simp add: scenario_defs)

subsection \<open>The fields that a record leaves alone\<close>

lemma applyUpdate_fields:
  "pendingChunkUpdates (state_after (applyUpdate u s)) = pendingChunkUpdates s"
  "pendingChunkUpdatesTail (state_after (applyUpdate u s)) = pendingChunkUpdatesTail s"
  "chunkUpdateDeadline (state_after (applyUpdate u s)) = chunkUpdateDeadline s"
  "chunkUpdateDelay (state_after (applyUpdate u s)) = chunkUpdateDelay s"
  "gpuMemory (state_after (applyUpdate u s)) = gpuMemory s"
  "systemMemory (state_after (applyUpdate u s)) = systemMemory s"
  "download (state_after (applyUpdate u s)) = download s"
  "timeouts (state_after (applyUpdate u s)) = timeouts s"
  "updates (state_after (applyUpdate u s)) = updates s"
  "nextUpdate (state_after (applyUpdate u s)) = nextUpdate s"
  "nextUpdateAddr (state_after (applyUpdate u s)) = nextUpdateAddr s"
  "nextRpcId (state_after (applyUpdate u s)) = nextRpcId s"
  "memoize (state_after (applyUpdate u s)) = memoize s"
proof -
  note fr = applyUpdate_frame [where u = u and s = s and os = Map.empty and n = 0]
  show "pendingChunkUpdates (state_after (applyUpdate u s)) = pendingChunkUpdates s"
    using arg_cong [OF fr, of pendingChunkUpdates] by simp
  show "pendingChunkUpdatesTail (state_after (applyUpdate u s)) = pendingChunkUpdatesTail s"
    using arg_cong [OF fr, of pendingChunkUpdatesTail] by simp
  show "chunkUpdateDeadline (state_after (applyUpdate u s)) = chunkUpdateDeadline s"
    using arg_cong [OF fr, of chunkUpdateDeadline] by simp
  show "chunkUpdateDelay (state_after (applyUpdate u s)) = chunkUpdateDelay s"
    using arg_cong [OF fr, of chunkUpdateDelay] by simp
  show "gpuMemory (state_after (applyUpdate u s)) = gpuMemory s"
    using arg_cong [OF fr, of gpuMemory] by simp
  show "systemMemory (state_after (applyUpdate u s)) = systemMemory s"
    using arg_cong [OF fr, of systemMemory] by simp
  show "download (state_after (applyUpdate u s)) = download s"
    using arg_cong [OF fr, of download] by simp
  show "timeouts (state_after (applyUpdate u s)) = timeouts s"
    using arg_cong [OF fr, of timeouts] by simp
  show "updates (state_after (applyUpdate u s)) = updates s"
    using arg_cong [OF fr, of updates] by simp
  show "nextUpdate (state_after (applyUpdate u s)) = nextUpdate s"
    using arg_cong [OF fr, of nextUpdate] by simp
  show "nextUpdateAddr (state_after (applyUpdate u s)) = nextUpdateAddr s"
    using arg_cong [OF fr, of nextUpdateAddr] by simp
  show "nextRpcId (state_after (applyUpdate u s)) = nextRpcId s"
    using arg_cong [OF fr, of nextRpcId] by simp
  show "memoize (state_after (applyUpdate u s)) = memoize s"
    using arg_cong [OF fr, of memoize] by simp
qed

lemma popUpdate_capacities [simp]:
  "gpuMemory (popUpdate now' a s) = gpuMemory s"
  "systemMemory (popUpdate now' a s) = systemMemory s"
  "download (popUpdate now' a s) = download s"
  by (simp_all add: popUpdate_def scheduleChunkUpdate_def setTimeout_def Let_def)

subsection \<open>The states of the stored chunks\<close>

lemma chunk_states_ok_cong:
  "objects s' = objects s \<Longrightarrow> chunk_states_ok s' = chunk_states_ok s"
  by (simp add: chunk_states_ok_def)

lemma chunk_states_ok_upd:
  assumes "chunk_states_ok s"
    and "\<And>key chunk. chunks src key = Some chunk \<Longrightarrow>
           state chunk = SYSTEM_MEMORY \<or> state chunk = GPU_MEMORY"
  shows "chunk_states_ok (s\<lparr>objects := (objects s)(r \<mapsto> src)\<rparr>)"
  using assms unfolding chunk_states_ok_def
  by (auto split: if_splits)

lemma chunk_states_okD:
  "chunk_states_ok s \<Longrightarrow> objects s r = Some src \<Longrightarrow> chunks src key = Some chunk \<Longrightarrow>
     state chunk = SYSTEM_MEMORY \<or> state chunk = GPU_MEMORY"
  unfolding chunk_states_ok_def by blast

lemma put_chunk_ok:
  assumes "chunk_states_ok s" and "state c = SYSTEM_MEMORY \<or> state c = GPU_MEMORY"
  shows "chunk_states_ok (put_chunk r k c s)"
proof (cases "objects s r")
  case None
  with assms show ?thesis by (simp add: put_chunk_def)
next
  case (Some src)
  have "chunk_states_ok (s\<lparr>objects := (objects s)(r \<mapsto> addChunk k c src)\<rparr>)"
    using assms chunk_states_okD [OF assms(1) Some]
    by (intro chunk_states_ok_upd) (auto simp: addChunk_def split: if_splits)
  with Some show ?thesis by (simp add: put_chunk_def)
qed

lemma resolveChunk_ok:
  assumes "chunk_states_ok s" and "objects s (upd_source u) = Some src"
    and "resolveChunk u src s = Inr (c, s1)"
  shows "chunk_states_ok s1 \<and> (state c = SYSTEM_MEMORY \<or> state c = GPU_MEMORY)"
proof (cases "upd_new u")
  case True
  with assms(3) have c: "c = new_Chunk (upd_source u)"
    and s1: "s1 = s\<lparr>objects := (objects s)(upd_source u \<mapsto> addChunk (upd_id u) c src)\<rparr>"
    by (auto simp: resolveChunk_def source_getChunk_def getChunk_def Let_def split: if_splits)
  have "chunk_states_ok (s\<lparr>objects := (objects s)(upd_source u \<mapsto> addChunk (upd_id u) c src)\<rparr>)"
    using chunk_states_okD [OF assms(1,2)] c
    by (intro chunk_states_ok_upd [OF assms(1)]) (auto simp: addChunk_def new_Chunk_def split: if_splits)
  with c s1 show ?thesis by (simp add: new_Chunk_def)
next
  case False
  with assms(3) have "s1 = s" and "chunks src (upd_id u) = Some c"
    by (auto simp: resolveChunk_def Let_def split: option.splits)
  with assms(1,2) chunk_states_okD show ?thesis by blast
qed

lemma applyState_ok:
  assumes "chunk_states_ok s"
  shows "chunk_states_ok (state_after (applyState u c s))"
proof -
  have "chunk_states_ok (put_chunk (upd_source u) (upd_id u) (copyToGPU c) s)"
    and "chunk_states_ok (put_chunk (upd_source u) (upd_id u) (freeGPUMemory c) s)"
    using assms by (simp_all add: put_chunk_ok copyToGPU_def freeGPUMemory_def)
  moreover have "\<And>t n. chunk_states_ok (t\<lparr>visibleChunksChanged := n\<rparr>) = chunk_states_ok t"
    by (simp add: chunk_states_ok_def)
  ultimately show ?thesis
    using assms
    by (cases "upd_state u") (simp_all add: applyState_def state_after_def Let_def)
qed

lemma applyUpdate_ok:
  assumes "chunk_states_ok s"
  shows "chunk_states_ok (state_after (applyUpdate u s))"
proof (cases "objects s (upd_source u)")
  case None
  with assms show ?thesis by (simp add: applyUpdate_def state_after_def)
next
  case (Some src)
  show ?thesis
  proof (cases "upd_state u = EXPIRED")
    case True
    have "chunk_states_ok (s\<lparr>objects := (objects s)(upd_source u \<mapsto> deleteChunk (upd_id u) src)\<rparr>)"
      using chunk_states_okD [OF assms Some]
      by (intro chunk_states_ok_upd [OF assms]) (auto simp: deleteChunk_def split: if_splits)
    with Some True show ?thesis by (simp add: applyUpdate_def state_after_def)
  next
    case False
    show ?thesis
    proof (cases "resolveChunk u src s")
      case (Inl es)
      then obtain e s1 where r: "resolveChunk u src s = Inl (e, s1)" by (cases es) auto
      with resolveChunk_Inl_state [OF r] Some False assms show ?thesis
        by (simp add: applyUpdate_def state_after_def)
    next
      case (Inr cs)
      then obtain c s1 where r: "resolveChunk u src s = Inr (c, s1)" by (cases cs) auto
      have "state_after (applyUpdate u s) = state_after (applyState u c s1)"
        using Some False r by (simp add: applyUpdate_def)
      with resolveChunk_ok [OF assms Some r] applyState_ok show ?thesis by simp
    qed
  qed
qed

lemma popUpdate_ok [simp]: "chunk_states_ok (popUpdate now' a t) = chunk_states_ok t"
  by (rule chunk_states_ok_cong) simp

lemma tick_ok:
  assumes "chunk_states_ok s"
  shows "chunk_states_ok (state_after (processPendingChunkUpdates now now' s))"
proof (cases "deadline_passed now s")
  case True
  with assms show ?thesis
    by (simp add: processPendingChunkUpdates_def state_after_def setTimeout_def chunk_states_ok_def)
next
  case False
  show ?thesis
  proof (cases "pendingChunkUpdates s")
    case None
    with False assms show ?thesis
      by (simp add: processPendingChunkUpdates_def state_after_def)
  next
    case (Some a)
    show ?thesis
    proof (cases "updates s a")
      case None
      with False Some assms show ?thesis
        by (simp add: processPendingChunkUpdates_def state_after_def)
    next
      case (Some u)
      note run = tick_running [OF False \<open>pendingChunkUpdates s = Some a\<close> Some]
      show ?thesis
      proof (cases "applyUpdate u s")
        case (Inl es)
        then have "state_after (processPendingChunkUpdates now now' s) = state_after (applyUpdate u s)"
          by (simp add: run)
        with applyUpdate_ok [OF assms] show ?thesis by simp
      next
        case (Inr s1)
        then have "state_after (processPendingChunkUpdates now now' s) = popUpdate now' a s1"
          and "s1 = state_after (applyUpdate u s)"
          by (simp_all add: run state_after_def)
        with applyUpdate_ok [OF assms, of u] show ?thesis by simp
      qed
    qed
  qed
qed

lemma Chunk_update_objects: "objects (state_after (Chunk_update now x s)) = objects s"
  by (simp add: Chunk_update_def state_after_def scheduleChunkUpdate_def setTimeout_def Let_def
      split: option.splits)

lemma getChunkSource_ok:
  assumes "chunk_states_ok s"
  shows "chunk_states_ok (snd (getChunkSource f c options s))"
proof (cases "memoize s (sourceKey f c options)")
  case None
  have "chunk_states_ok (s\<lparr>objects := (objects s)(nextRpcId s \<mapsto>
          \<lparr>chunks = Map.empty, overridesGetChunk = instancesOverrideGetChunk c, refCount = 1\<rparr>)\<rparr>)"
    by (intro chunk_states_ok_upd [OF assms]) simp
  then have "chunk_states_ok (snd (new_source c s))"
    by (simp add: new_source_def initializeCounterpart_def new_ChunkSource_def chunk_states_ok_def Let_def)
  with None show ?thesis
    by (simp add: getChunkSource_def StringMemoize_get_def chunk_states_ok_def split: prod.splits)
next
  case (Some r)
  have "chunk_states_ok (addRef r s)"
  proof (cases "objects s r")
    case None
    with assms show ?thesis by (simp add: addRef_def)
  next
    case (Some src)
    have "chunk_states_ok (s\<lparr>objects := (objects s)(r \<mapsto> src\<lparr>refCount := Suc (refCount src)\<rparr>)\<rparr>)"
      using chunk_states_okD [OF assms Some]
      by (intro chunk_states_ok_upd [OF assms]) auto
    with Some show ?thesis by (simp add: addRef_def)
  qed
  with Some show ?thesis by (simp add: getChunkSource_def StringMemoize_get_def)
qed

lemma step_ok: "chunk_states_ok s \<Longrightarrow> chunk_states_ok (step f a s)"
proof (cases a)
  case (Tick now now')
  assume "chunk_states_ok s"
  with Tick show ?thesis by (simp add: tick_ok)
next
  case (Receive now x)
  assume "chunk_states_ok s"
  with Receive show ?thesis
    by (simp add: chunk_states_ok_cong [OF Chunk_update_objects])
next
  case (Acquire c options)
  assume "chunk_states_ok s"
  with Acquire show ?thesis by (simp add: getChunkSource_ok)
next
  case (SetDeadline d)
  assume "chunk_states_ok s"
  with SetDeadline show ?thesis by (simp add: chunk_states_ok_def)
qed

lemma run_ok: "chunk_states_ok s \<Longrightarrow> chunk_states_ok (run f as s)"
  by (induction as arbitrary: s) (simp_all add: step_ok)


text \<open>
  C9. A chunk is constructed in \<^verbatim>\<open>SYSTEM_MEMORY\<close>. A new frontend stores no chunk, and
  whatever events follow (ticks at any time, records of any content, sources acquired,
  deadlines set), every chunk that a source stores is in \<^verbatim>\<open>SYSTEM_MEMORY\<close> or in
  \<^verbatim>\<open>GPU_MEMORY\<close>: the property holds of the new frontend and every run keeps it.
\<close>

theorem chunk_states_invariant:
  "state (new_Chunk r) = SYSTEM_MEMORY
   \<and> chunk_states_ok (new_world gpu sys dl)
   \<and> (chunk_states_ok s \<longrightarrow> chunk_states_ok (run f as s))"
  by (simp add: run_ok new_Chunk_def) (simp add: chunk_states_ok_def new_world_def)

theorem chunk_states_invariant_witness:
  "chunk_states_ok world0
   \<and> chunk_states_ok
        (run sample_stringify [Acquire frontend_class [], Receive 0 promote_c1, Tick 1 1] world0)
   \<and> chunk_state
        (run sample_stringify [Acquire frontend_class [], Receive 0 promote_c1, Tick 1 1] world0)
        0 ''c1'' = Some GPU_MEMORY"
proof -
  have "chunk_state
        (run sample_stringify [Acquire frontend_class [], Receive 0 promote_c1, Tick 1 1] world0)
        0 ''c1'' = Some GPU_MEMORY"
    by (simp add: scenario_defs chunk_state_def getChunkSource_def StringMemoize_get_def
        processPendingChunkUpdates_def applyUpdate_def resolveChunk_def source_getChunk_def
        new_Chunk_def applyState_def put_chunk_def addChunk_def copyToGPU_def popUpdate_def)
  with chunk_states_invariant [of 0 capacity0 capacity0 capacity0 world0 sample_stringify
      "[Acquire frontend_class [], Receive 0 promote_c1, Tick 1 1]"]
  show ?thesis by (simp add: world0_def)
qed

subsection \<open>Invalid target states\<close>

lemma applyState_invalid:
  "applyState u c s = Inl (e, s1) \<longleftrightarrow>
     upd_state u \<noteq> state c \<and> upd_state u \<notin> {GPU_MEMORY, SYSTEM_MEMORY}
     \<and> e = InvalidChunkState (upd_state u) \<and> s1 = s"
  by (cases "upd_state u") (auto simp: applyState_def Let_def)

lemma resolveChunk_not_invalid: "resolveChunk u src s \<noteq> Inl (InvalidChunkState st, s1)"
  by (auto simp: resolveChunk_def source_getChunk_def getChunk_def Let_def split: option.splits)

lemma applyUpdate_invalid:
  assumes "applyUpdate u s = Inl (InvalidChunkState st, s1)"
  shows "upd_state u \<notin> {GPU_MEMORY, SYSTEM_MEMORY, EXPIRED}"
proof (cases "objects s (upd_source u)")
  case None
  with assms show ?thesis by (simp add: applyUpdate_def)
next
  case (Some src)
  show ?thesis
  proof (cases "upd_state u = EXPIRED")
    case True
    with Some assms show ?thesis by (simp add: applyUpdate_def)
  next
    case False
    show ?thesis
    proof (cases "resolveChunk u src s")
      case (Inl es)
      with Some False assms resolveChunk_not_invalid [of u src s st s1] show ?thesis
        by (simp add: applyUpdate_def)
    next
      case (Inr cs)
      then obtain c s2 where r: "resolveChunk u src s = Inr (c, s2)" by (cases cs) auto
      with Some False assms have "applyState u c s2 = Inl (InvalidChunkState st, s1)"
        by (simp add: applyUpdate_def)
      with False show ?thesis by (simp add: applyState_invalid)
    qed
  qed
qed

lemma applyUpdate_invalid_throws:
  assumes ok: "chunk_states_ok s"
    and bad: "upd_state u \<notin> {GPU_MEMORY, SYSTEM_MEMORY, EXPIRED}"
  shows "\<exists>e s1. applyUpdate u s = Inl (e, s1)
           \<and> (chunk_of s u \<noteq> None \<longrightarrow> e = InvalidChunkState (upd_state u))"
proof (cases "objects s (upd_source u)")
  case None
  then show ?thesis by (simp add: applyUpdate_def chunk_of_def)
next
  case (Some src)
  from bad have ne: "upd_state u \<noteq> EXPIRED" by simp
  show ?thesis
  proof (cases "resolveChunk u src s")
    case (Inl es)
    then obtain e s1 where r: "resolveChunk u src s = Inl (e, s1)" by (cases es) auto
    with Some ne show ?thesis by (simp add: applyUpdate_def chunk_of_def)
  next
    case (Inr cs)
    then obtain c s2 where r: "resolveChunk u src s = Inr (c, s2)" by (cases cs) auto
    from resolveChunk_ok [OF ok Some r] bad have "upd_state u \<noteq> state c" by auto
    with bad have "applyState u c s2 = Inl (InvalidChunkState (upd_state u), s2)"
      by (simp add: applyState_invalid)
    with Some ne r show ?thesis by (simp add: applyUpdate_def)
  qed
qed

text \<open>
  C6. In a state where every stored chunk is in \<^verbatim>\<open>SYSTEM_MEMORY\<close> or \<^verbatim>\<open>GPU_MEMORY\<close>
  (every reachable state, by C9), a tick that is not deferred and finds at the head of the
  queue a record whose target state is none of \<^verbatim>\<open>GPU_MEMORY\<close>, \<^verbatim>\<open>SYSTEM_MEMORY\<close> and
  \<^verbatim>\<open>EXPIRED\<close> ends in an error, with the record still at the head of the queue; the error
  is the one of line 122 whenever the tick gets as far as the chunk. For a record with one
  of the three target states the tick never ends in the error of line 122.
\<close>

theorem invalid_state_throws:
  assumes "chunk_states_ok s" and "\<not> deadline_passed now s"
    and "pendingChunkUpdates s = Some a" and "updates s a = Some u"
  shows "(upd_state u \<notin> {GPU_MEMORY, SYSTEM_MEMORY, EXPIRED} \<longrightarrow>
            (\<exists>e s1. processPendingChunkUpdates now now' s = Inl (e, s1)
               \<and> pendingChunkUpdates s1 = Some a
               \<and> (chunk_of s u \<noteq> None \<longrightarrow> e = InvalidChunkState (upd_state u))))
       \<and> (upd_state u \<in> {GPU_MEMORY, SYSTEM_MEMORY, EXPIRED} \<longrightarrow>
            (\<forall>st s1. processPendingChunkUpdates now now' s \<noteq> Inl (InvalidChunkState st, s1)))"
proof (intro conjI impI allI)
  assume bad: "upd_state u \<notin> {GPU_MEMORY, SYSTEM_MEMORY, EXPIRED}"
  from applyUpdate_invalid_throws [OF assms(1) bad]
  obtain e s1 where ap: "applyUpdate u s = Inl (e, s1)"
    and e: "chunk_of s u \<noteq> None \<longrightarrow> e = InvalidChunkState (upd_state u)" by blast
  from ap have "s1 = state_after (applyUpdate u s)" by (simp add: state_after_def)
  then have "pendingChunkUpdates s1 = Some a"
    using assms(3) by (simp add: applyUpdate_fields)
  with ap e show "\<exists>e s1. processPendingChunkUpdates now now' s = Inl (e, s1)
               \<and> pendingChunkUpdates s1 = Some a
               \<and> (chunk_of s u \<noteq> None \<longrightarrow> e = InvalidChunkState (upd_state u))"
    by (simp add: tick_running [OF assms(2-4)])
next
  fix st s1
  assume good: "upd_state u \<in> {GPU_MEMORY, SYSTEM_MEMORY, EXPIRED}"
  show "processPendingChunkUpdates now now' s \<noteq> Inl (InvalidChunkState st, s1)"
  proof
    assume "processPendingChunkUpdates now now' s = Inl (InvalidChunkState st, s1)"
    then have "applyUpdate u s = Inl (InvalidChunkState st, s1)"
      by (simp add: tick_running [OF assms(2-4)] split: sum.splits)
    from applyUpdate_invalid [OF this] good show False by simp
  qed
qed

theorem invalid_state_throws_witness:
  "chunk_states_ok scenario_invalid \<and> \<not> deadline_passed 1 scenario_invalid
   \<and> pendingChunkUpdates scenario_invalid = Some 0
   \<and> updates scenario_invalid 0 = Some invalid_c1
   \<and> upd_state invalid_c1 \<notin> {GPU_MEMORY, SYSTEM_MEMORY, EXPIRED}
   \<and> (\<exists>s1. processPendingChunkUpdates 1 1 scenario_invalid
              = Inl (InvalidChunkState (OTHER_STATE 3), s1)
            \<and> pendingChunkUpdates s1 = Some 0)"
proof -
  have ok: "chunk_states_ok scenario_invalid"
    by (simp add: scenario_defs chunk_states_ok_def)
  have "chunk_of scenario_invalid invalid_c1 \<noteq> None"
    by (simp add: scenario_defs chunk_of_def resolveChunk_def source_getChunk_def)
  with invalid_state_throws [of scenario_invalid 1 0 invalid_c1 1] ok
  show ?thesis by (auto simp add: scenario_defs)
qed

subsection \<open>The registry of sources\<close>

lemma sample_stringify_inj [simp]: "sample_stringify a = sample_stringify b \<longleftrightarrow> a = b"
proof
  assume "sample_stringify a = sample_stringify b"
  then have "length (sample_stringify a) = length (sample_stringify b)" by simp
  then show "a = b" by (simp add: sample_stringify_def)
qed simp

lemma addRef_fields [simp]:
  "memoize (addRef r s) = memoize s" "nextRpcId (addRef r s) = nextRpcId s"
  by (simp_all add: addRef_def split: option.splits)

lemma addRef_objects_None [simp]: "objects (addRef r s) r' = None \<longleftrightarrow> objects s r' = None"
  by (simp add: addRef_def split: option.splits)

lemma getChunkSource_hit:
  "memoize s (sourceKey f c options) = Some r \<Longrightarrow> getChunkSource f c options s = (r, addRef r s)"
  by (simp add: getChunkSource_def StringMemoize_get_def)

lemma getChunkSource_miss:
  "memoize s (sourceKey f c options) = None \<Longrightarrow>
     getChunkSource f c options s =
       (nextRpcId s,
        s\<lparr>objects := (objects s)(nextRpcId s \<mapsto>
              \<lparr>chunks = Map.empty, overridesGetChunk = instancesOverrideGetChunk c, refCount = 1\<rparr>),
          nextRpcId := Suc (nextRpcId s),
          memoize := (memoize s)(sourceKey f c options \<mapsto> nextRpcId s)\<rparr>)"
  by (simp add: getChunkSource_def StringMemoize_get_def new_source_def initializeCounterpart_def new_ChunkSource_def Let_def)


lemma registry_okD1:
  "registry_ok s \<Longrightarrow> memoize s k = Some r \<Longrightarrow> r < nextRpcId s \<and> objects s r \<noteq> None"
  unfolding registry_ok_def by blast

lemma registry_okD2:
  "registry_ok s \<Longrightarrow> memoize s k = Some r \<Longrightarrow> memoize s k' = Some r \<Longrightarrow> k = k'"
  unfolding registry_ok_def by blast

lemma registry_okI:
  assumes "\<And>k r. memoize s k = Some r \<Longrightarrow> r < nextRpcId s \<and> objects s r \<noteq> None"
    and "\<And>k k' r. memoize s k = Some r \<Longrightarrow> memoize s k' = Some r \<Longrightarrow> k = k'"
  shows "registry_ok s"
  unfolding registry_ok_def using assms by blast

lemma getChunkSource_registry_ok:
  assumes ok: "registry_ok s"
  shows "registry_ok (snd (getChunkSource f c options s))"
proof (cases "memoize s (sourceKey f c options)")
  case None
  let ?key = "sourceKey f c options"
  let ?s' = "snd (getChunkSource f c options s)"
  have m: "memoize ?s' = (memoize s)(?key \<mapsto> nextRpcId s)"
    and n: "nextRpcId ?s' = Suc (nextRpcId s)"
    and o: "\<And>r. objects s r \<noteq> None \<Longrightarrow> objects ?s' r \<noteq> None"
    and o': "objects ?s' (nextRpcId s) \<noteq> None"
    unfolding getChunkSource_miss [OF None] by simp_all
  show ?thesis
  proof (rule registry_okI)
    fix k r assume "memoize ?s' k = Some r"
    then consider "k = ?key" "r = nextRpcId s" | "k \<noteq> ?key" "memoize s k = Some r"
      unfolding m by (cases "k = ?key") simp_all
    then show "r < nextRpcId ?s' \<and> objects ?s' r \<noteq> None"
    proof cases
      case 1
      with n o' show ?thesis by simp
    next
      case 2
      with registry_okD1 [OF ok 2(2)] n o show ?thesis by simp
    qed
  next
    fix k k' r assume a: "memoize ?s' k = Some r" and b: "memoize ?s' k' = Some r"
    show "k = k'"
    proof (cases "k = ?key")
      case True
      with a have r: "r = nextRpcId s" unfolding m by simp
      show ?thesis
      proof (cases "k' = ?key")
        case False
        with b have "memoize s k' = Some r" unfolding m by simp
        with registry_okD1 [OF ok this] r show ?thesis by simp
      qed (simp add: True)
    next
      case False
      with a have ak: "memoize s k = Some r" unfolding m by simp
      show ?thesis
      proof (cases "k' = ?key")
        case True
        with b have "r = nextRpcId s" unfolding m by simp
        with registry_okD1 [OF ok ak] show ?thesis by simp
      next
        case False
        with b have "memoize s k' = Some r" unfolding m by simp
        with registry_okD2 [OF ok ak] show ?thesis by simp
      qed
    qed
  qed
next
  case (Some r)
  show ?thesis
  proof (rule registry_okI)
    fix k r' assume "memoize (snd (getChunkSource f c options s)) k = Some r'"
    then have "memoize s k = Some r'" unfolding getChunkSource_hit [OF Some] by simp
    from registry_okD1 [OF ok this]
    show "r' < nextRpcId (snd (getChunkSource f c options s))
          \<and> objects (snd (getChunkSource f c options s)) r' \<noteq> None"
      unfolding getChunkSource_hit [OF Some] by simp
  next
    fix k k' r'
    assume "memoize (snd (getChunkSource f c options s)) k = Some r'"
      and "memoize (snd (getChunkSource f c options s)) k' = Some r'"
    then have "memoize s k = Some r'" and "memoize s k' = Some r'"
      unfolding getChunkSource_hit [OF Some] by simp_all
    with registry_okD2 [OF ok] show "k = k'" by blast
  qed
qed

lemma getChunkSource_lookup:
  "memoize (snd (getChunkSource f c options s)) (sourceKey f c options)
     = Some (fst (getChunkSource f c options s))"
proof (cases "memoize s (sourceKey f c options)")
  case None
  show ?thesis unfolding getChunkSource_miss [OF None] by simp
next
  case (Some r)
  show ?thesis unfolding getChunkSource_hit [OF Some] by (simp add: Some)
qed

lemma getChunkSource_fresh_or_cached:
  assumes "registry_ok s" and "getChunkSource f c options s = (r, s')"
  shows "memoize s' (sourceKey f c options) = Some r \<and> registry_ok s'"
  using getChunkSource_lookup [of f c options s] getChunkSource_registry_ok [OF assms(1), of f c options]
    assms(2) by simp

lemma sourceKey_separated:
  assumes sep: "\<forall>a b. f a = f b \<longrightarrow> map_of a = map_of b"
    and eq: "sourceKey f c1 o1 = sourceKey f c2 o2"
  shows "getObjectId c1 = getObjectId c2
       \<and> (\<forall>k. k \<noteq> ''constructorId'' \<longrightarrow>
             get_prop (encodeOptions c1 o1) k = get_prop (encodeOptions c2 o2) k)"
proof -
  let ?k1 = "set_prop ''constructorId'' (JString (getObjectId c1)) (encodeOptions c1 o1)"
  let ?k2 = "set_prop ''constructorId'' (JString (getObjectId c2)) (encodeOptions c2 o2)"
  from eq have "f ?k1 = f ?k2"
    by (simp add: sourceKey_def Let_def)
  with sep have m: "map_of ?k1 = map_of ?k2" by blast
  have "map_of ?k1 ''constructorId'' = map_of ?k2 ''constructorId''"
    using m by simp
  then have id: "getObjectId c1 = getObjectId c2"
    by (simp add: set_prop_def update_conv')
  have "get_prop (encodeOptions c1 o1) k = get_prop (encodeOptions c2 o2) k"
    if "k \<noteq> ''constructorId''" for k
  proof -
    have "map_of ?k1 k = map_of ?k2 k" using m by simp
    with that show ?thesis by (simp add: set_prop_def update_conv' get_prop_def)
  qed
  with id show ?thesis by blast
qed

text \<open>
  C4, as the code has it. Take two calls of \<^verbatim>\<open>getChunkSource\<close>, one after the other, in
  a state where no two keys of the registry share a source. They return the same source
  exactly when their keys are equal, the key being \<^verbatim>\<open>stableStringify\<close> of the result of
  \<^verbatim>\<open>encodeOptions\<close> with the constructor id added; and then the second call constructs
  nothing: it only adds a reference to that source. The keys are equal whenever the
  constructor ids are equal and \<^verbatim>\<open>encodeOptions\<close> gives the same object, so for equal
  options always. If \<^verbatim>\<open>stableStringify\<close> gives different strings for key objects with
  different contents, then calls that return the same source have the same constructor
  id and agree on every encoded field: a field that \<^verbatim>\<open>encodeOptions\<close> drops does not
  count.
\<close>

theorem getChunkSource_memoized:
  assumes "registry_ok s"
    and "getChunkSource f c1 o1 s = (r1, s1)"
    and "getChunkSource f c2 o2 s1 = (r2, s2)"
  shows "(r1 = r2 \<longleftrightarrow> sourceKey f c1 o1 = sourceKey f c2 o2)
       \<and> (r1 = r2 \<longrightarrow> s2 = addRef r1 s1)
       \<and> (getObjectId c1 = getObjectId c2 \<and> encodeOptions c1 o1 = encodeOptions c2 o2 \<longrightarrow> r1 = r2)
       \<and> ((\<forall>a b. f a = f b \<longrightarrow> map_of a = map_of b) \<and> r1 = r2 \<longrightarrow>
            getObjectId c1 = getObjectId c2
            \<and> (\<forall>k. k \<noteq> ''constructorId'' \<longrightarrow>
                  get_prop (encodeOptions c1 o1) k = get_prop (encodeOptions c2 o2) k))"
proof -
  from getChunkSource_fresh_or_cached [OF assms(1,2)]
  have m1: "memoize s1 (sourceKey f c1 o1) = Some r1" and ok1: "registry_ok s1" by simp_all
  from getChunkSource_fresh_or_cached [OF ok1 assms(3)]
  have m2: "memoize s2 (sourceKey f c2 o2) = Some r2" by simp
  have same: "r2 = r1 \<and> s2 = addRef r1 s1" if "sourceKey f c1 o1 = sourceKey f c2 o2"
    using getChunkSource_hit [of s1 f c2 o2 r1] m1 that assms(3) by simp
  have diff: "r1 \<noteq> r2" if neq: "sourceKey f c1 o1 \<noteq> sourceKey f c2 o2"
  proof (cases "memoize s1 (sourceKey f c2 o2)")
    case None
    from getChunkSource_miss [OF None] assms(3) have "r2 = nextRpcId s1" by simp
    moreover from registry_okD1 [OF ok1 m1] have "r1 < nextRpcId s1" by simp
    ultimately show ?thesis by simp
  next
    case (Some r)
    from getChunkSource_hit [OF Some] assms(3) have "r2 = r" by simp
    with registry_okD2 [OF ok1 m1, of "sourceKey f c2 o2"] Some neq show ?thesis by auto
  qed
  have iff: "r1 = r2 \<longleftrightarrow> sourceKey f c1 o1 = sourceKey f c2 o2"
    using same diff by blast
  have key: "getObjectId c1 = getObjectId c2 \<and> encodeOptions c1 o1 = encodeOptions c2 o2 \<longrightarrow>
               sourceKey f c1 o1 = sourceKey f c2 o2"
    by (simp add: sourceKey_def)
  show ?thesis
    using iff same key sourceKey_separated [of f c1 o1 c2 o2] by blast
qed

theorem getChunkSource_memoized_witness:
  "registry_ok world0
   \<and> fst (getChunkSource sample_stringify params_class options_E
            (snd (getChunkSource sample_stringify params_class options_E world0)))
       = fst (getChunkSource sample_stringify params_class options_E world0)
   \<and> fst (getChunkSource sample_stringify params_class options_E'
            (snd (getChunkSource sample_stringify params_class options_E world0)))
       \<noteq> fst (getChunkSource sample_stringify params_class options_E world0)"
proof -
  let ?g1 = "getChunkSource sample_stringify params_class options_E world0"
  let ?g2 = "getChunkSource sample_stringify params_class options_E (snd ?g1)"
  let ?g3 = "getChunkSource sample_stringify params_class options_E' (snd ?g1)"
  have ok: "registry_ok world0"
    by (simp add: registry_ok_def world0_def new_world_def)
  have sep: "\<forall>a b. sample_stringify a = sample_stringify b \<longrightarrow> map_of a = map_of b"
    by simp
  have ne: "get_prop (encodeOptions params_class options_E) ''parameters''
              \<noteq> get_prop (encodeOptions params_class options_E') ''parameters''"
    by (simp add: params_class_def WithParameters_def WithParameters_encodeOptions_def
        ChunkSource_class_def ChunkSource_encodeOptions_def options_E_def options_E'_def
        get_prop_def set_prop_def)
  from getChunkSource_memoized [of world0 sample_stringify params_class options_E
      "fst ?g1" "snd ?g1" params_class options_E "fst ?g2" "snd ?g2"] ok
  have same: "fst ?g1 = fst ?g2" by simp
  from getChunkSource_memoized [of world0 sample_stringify params_class options_E
      "fst ?g1" "snd ?g1" params_class options_E' "fst ?g3" "snd ?g3"] ok
  have "(\<forall>a b. sample_stringify a = sample_stringify b \<longrightarrow> map_of a = map_of b)
          \<and> fst ?g1 = fst ?g3 \<longrightarrow>
        get_prop (encodeOptions params_class options_E) ''parameters''
          = get_prop (encodeOptions params_class options_E') ''parameters''"
    by simp
  with sep ne have diff: "fst ?g1 \<noteq> fst ?g3" by blast
  from ok same diff show ?thesis by simp
qed

text \<open>
  C4 as stated fails where it says that calls whose options differ in any field return
  different sources. The class \<^verbatim>\<open>ChunkSource\<close> encodes no option at all (lines 218--220): two calls whose
  options differ in the field \<^verbatim>\<open>a\<close> return the same source, also with a serializer that
  tells all key objects apart.
\<close>

theorem getChunkSource_options_dropped:
  "[(''a'', JNumber 1)] \<noteq> [(''a'', JNumber 2)]
   \<and> fst (getChunkSource sample_stringify (ChunkSource_class ''o1'') [(''a'', JNumber 2)]
            (snd (getChunkSource sample_stringify (ChunkSource_class ''o1'') [(''a'', JNumber 1)]
                    world0)))
       = fst (getChunkSource sample_stringify (ChunkSource_class ''o1'') [(''a'', JNumber 1)]
                world0)"
  by (simp add: getChunkSource_def StringMemoize_get_def sourceKey_def new_source_def initializeCounterpart_def new_ChunkSource_def
      ChunkSource_class_def ChunkSource_encodeOptions_def world0_def new_world_def)

subsection \<open>The capacities\<close>

lemma step_capacities:
  "gpuMemory (step f a s) = gpuMemory s \<and> systemMemory (step f a s) = systemMemory s
   \<and> download (step f a s) = download s"
proof (cases a)
  case (Tick now now')
  have "gpuMemory (state_after (processPendingChunkUpdates now now' s)) = gpuMemory s
      \<and> systemMemory (state_after (processPendingChunkUpdates now now' s)) = systemMemory s
      \<and> download (state_after (processPendingChunkUpdates now now' s)) = download s"
  proof (cases "deadline_passed now s")
    case True
    then show ?thesis
      by (simp add: processPendingChunkUpdates_def state_after_def setTimeout_def)
  next
    case False
    show ?thesis
    proof (cases "pendingChunkUpdates s")
      case None
      with False show ?thesis by (simp add: processPendingChunkUpdates_def state_after_def)
    next
      case (Some a)
      show ?thesis
      proof (cases "updates s a")
        case None
        with False Some show ?thesis
          by (simp add: processPendingChunkUpdates_def state_after_def)
      next
        case (Some u)
        note run = tick_running [OF False \<open>pendingChunkUpdates s = Some a\<close> Some]
        show ?thesis
        proof (cases "applyUpdate u s")
          case (Inl es)
          then have "state_after (processPendingChunkUpdates now now' s)
                       = state_after (applyUpdate u s)"
            by (simp add: run)
          then show ?thesis by (simp add: applyUpdate_fields)
        next
          case (Inr s1)
          then have "state_after (processPendingChunkUpdates now now' s) = popUpdate now' a s1"
            and "s1 = state_after (applyUpdate u s)"
            by (simp_all add: run state_after_def)
          then show ?thesis by (simp add: applyUpdate_fields)
        qed
      qed
    qed
  qed
  with Tick show ?thesis by simp
next
  case (Receive now x)
  then show ?thesis
    by (simp add: Chunk_update_def state_after_def scheduleChunkUpdate_def setTimeout_def Let_def
        split: option.splits)
next
  case (Acquire c options)
  show ?thesis
  proof (cases "memoize s (sourceKey f c options)")
    case None
    with Acquire show ?thesis by (simp add: getChunkSource_miss)
  next
    case (Some r)
    with Acquire show ?thesis
      by (simp add: getChunkSource_hit addRef_def split: option.splits)
  qed
next
  case (SetDeadline d)
  then show ?thesis by simp
qed

text \<open>
  C7, as the code has it. The frontend never adjusts a capacity: the constructor passes
  the three capacities on to the backend counterpart, and \<^verbatim>\<open>copyToGPU\<close> and
  \<^verbatim>\<open>freeGPUMemory\<close> only set the state of the chunk. So no run changes \<open>used\<close> or
  \<open>total\<close> of any tier: after a promotion followed by a demotion they are what they were
  before, and after the promotion alone as well.
\<close>

theorem capacities_untouched:
  "state (copyToGPU chunk) = GPU_MEMORY \<and> state (freeGPUMemory chunk) = SYSTEM_MEMORY
   \<and> gpuMemory (run f as s) = gpuMemory s
   \<and> systemMemory (run f as s) = systemMemory s
   \<and> download (run f as s) = download s"
proof -
  have "gpuMemory (run f as s) = gpuMemory s \<and> systemMemory (run f as s) = systemMemory s
      \<and> download (run f as s) = download s"
    by (induction as arbitrary: s) (simp_all add: step_capacities)
  then show ?thesis by (simp add: copyToGPU_def freeGPUMemory_def)
qed

text \<open>
  C7 as stated fails where it says that a promotion increases \<open>used\<close> by the size of the
  chunk. Scenario A: the tick promotes the chunk \<^verbatim>\<open>c1\<close>, whose record gives a size of 5, and
  \<open>used\<close> of the GPU memory does not grow by 5.
\<close>

theorem promotion_keeps_used:
  "chunk_state scenario_A 0 ''c1'' = None
   \<and> chunk_state (state_after (processPendingChunkUpdates 1 1 scenario_A)) 0 ''c1''
       = Some GPU_MEMORY
   \<and> chunkDataSize promote_c1 = 5
   \<and> used (gpuMemory (state_after (processPendingChunkUpdates 1 1 scenario_A)))
       \<noteq> used (gpuMemory scenario_A) + chunkDataSize promote_c1"
  by (simp add: scenario_defs chunk_state_def
      processPendingChunkUpdates_def applyUpdate_def resolveChunk_def source_getChunk_def
      new_Chunk_def applyState_def put_chunk_def addChunk_def copyToGPU_def popUpdate_def)

subsection \<open>The pending queue\<close>

lemma linked_snoc:
  "linked nxt p (as @ [t]) e \<longleftrightarrow> linked nxt p as (Some t) \<and> nxt t = e"
  by (induction as arbitrary: p) auto

lemma linked_append:
  "linked nxt p (as @ bs) e \<longleftrightarrow> (\<exists>m. linked nxt p as m \<and> linked nxt m bs e)"
  by (induction as arbitrary: p) auto

lemma linked_upd_other:
  "t \<notin> set as \<Longrightarrow> linked (nxt(t := v)) p as e = linked nxt p as e"
  by (induction as arbitrary: p) auto

lemma linked_None [simp]: "linked nxt None as e \<longleftrightarrow> as = [] \<and> e = None"
  by (cases as) auto

lemma pending_cong:
  assumes "nextUpdate s' = nextUpdate s" and "pendingChunkUpdates s' = pendingChunkUpdates s"
    and "pendingChunkUpdatesTail s' = pendingChunkUpdatesTail s"
    and "nextUpdateAddr s' = nextUpdateAddr s" and "updates s' = updates s"
  shows "pending s' q = pending s q"
  using assms by (simp add: pending_def)

lemma pending_unique: "pending s q \<Longrightarrow> pending s q' \<Longrightarrow> q = q'"
proof -
  have "linked nxt p as None \<Longrightarrow> linked nxt p bs None \<Longrightarrow> as = bs" for nxt p as bs
  proof (induction as arbitrary: p bs)
    case Nil
    then show ?case by (cases bs) auto
  next
    case (Cons a as)
    then show ?case by (cases bs) auto
  qed
  then show "pending s q \<Longrightarrow> pending s q' \<Longrightarrow> q = q'"
    unfolding pending_def by blast
qed

text \<open>A record arrives: it joins the queue at the tail.\<close>

lemma Chunk_update_pending:
  assumes pq: "pending s q" and src: "objects s (upd_source x) \<noteq> None"
  shows "\<exists>s'. Chunk_update now x s = Inr s'
           \<and> pending s' (q @ [nextUpdateAddr s])
           \<and> updates s' = (updates s)(nextUpdateAddr s \<mapsto> x)
           \<and> objects s' = objects s
           \<and> visibleChunksChanged s' = visibleChunksChanged s
           \<and> length (timeouts s') = length (timeouts s) + (if q = [] then 1 else 0)"
proof -
  let ?a = "nextUpdateAddr s"
  from pq have lk: "linked (nextUpdate s) (pendingChunkUpdates s) q None"
    and dq: "distinct q"
    and tl: "pendingChunkUpdatesTail s = (if q = [] then None else Some (last q))"
    and bd: "\<And>b. b \<in> set q \<Longrightarrow> b < ?a \<and> updates s b \<noteq> None"
    and fr: "\<And>b. ?a \<le> b \<Longrightarrow> nextUpdate s b = None"
    by (auto simp: pending_def)
  have anq: "?a \<notin> set q" using bd by blast
  show ?thesis
  proof (cases "q = []")
    case True
    with lk tl have hd: "pendingChunkUpdates s = None" and "pendingChunkUpdatesTail s = None"
      by simp_all
    with src True fr [of ?a] fr show ?thesis
      by (auto simp: Chunk_update_def scheduleChunkUpdate_def setTimeout_def Let_def pending_def)
  next
    case False
    then obtain q0 t where q: "q = q0 @ [t]" by (cases q rule: rev_cases) auto
    with tl have tl': "pendingChunkUpdatesTail s = Some t" by simp
    from lk q have l0: "linked (nextUpdate s) (pendingChunkUpdates s) q0 (Some t)"
      by (simp add: linked_snoc)
    from dq q have tq0: "t \<notin> set q0" by simp
    from bd [of t] q have ta: "t < ?a" by simp
    have l1: "linked ((nextUpdate s)(t \<mapsto> ?a)) (pendingChunkUpdates s) (q @ [?a]) None"
    proof -
      have "linked ((nextUpdate s)(t \<mapsto> ?a)) (pendingChunkUpdates s) q0 (Some t)"
        using l0 tq0 by (simp add: linked_upd_other)
      moreover have "linked ((nextUpdate s)(t \<mapsto> ?a)) (Some t) [t, ?a] None"
        using ta fr [of ?a] by simp
      ultimately show ?thesis
        unfolding q by (auto simp: linked_append)
    qed
    have "pending (s\<lparr>updates := (updates s)(?a \<mapsto> x), nextUpdateAddr := Suc ?a,
                     nextUpdate := (nextUpdate s)(t \<mapsto> ?a),
                     pendingChunkUpdatesTail := Some ?a\<rparr>) (q @ [?a])"
      unfolding pending_def using l1 dq anq bd fr ta
      by (auto simp: less_Suc_eq)
    with src tl' False show ?thesis
      by (auto simp: Chunk_update_def Let_def)
  qed
qed

text \<open>The head record leaves the queue.\<close>

lemma popUpdate_pending_queue:
  assumes "pending s (a # q)"
  shows "pending (popUpdate now' a s) q
       \<and> length (timeouts (popUpdate now' a s)) = length (timeouts s) + (if q = [] then 0 else 1)"
proof -
  from assms have lk: "linked (nextUpdate s) (nextUpdate s a) q None"
    and rest: "distinct q" "pendingChunkUpdatesTail s = Some (last (a # q))"
      "\<forall>b \<in> set q. b < nextUpdateAddr s \<and> updates s b \<noteq> None"
      "\<forall>b. nextUpdateAddr s \<le> b \<longrightarrow> nextUpdate s b = None"
    by (auto simp: pending_def)
  show ?thesis
  proof (cases q)
    case Nil
    with lk have "nextUpdate s a = None" by simp
    with Nil rest show ?thesis
      by (simp add: popUpdate_def pending_def)
  next
    case (Cons b q')
    with lk have "nextUpdate s a = Some b" by simp
    with Cons lk rest show ?thesis
      by (simp add: popUpdate_def pending_def scheduleChunkUpdate_def setTimeout_def Let_def)
  qed
qed


lemma Chunk_update_failed_pending:
  assumes pq: "pending s q" and f: "Chunk_update now x s = Inl (e, s')"
  shows "pending s' q"
proof -
  from f have "s' = s\<lparr>updates := (updates s)(nextUpdateAddr s \<mapsto> x),
                        nextUpdateAddr := Suc (nextUpdateAddr s)\<rparr>"
    by (auto simp: Chunk_update_def Let_def split: option.splits)
  with pq show ?thesis
    by (auto simp: pending_def)
qed

lemma tick_failed_pending:
  assumes pq: "pending s q" and f: "processPendingChunkUpdates now now' s = Inl (e, s')"
  shows "pending s' q"
proof -
  from f have nd: "\<not> deadline_passed now s"
    by (auto simp: processPendingChunkUpdates_def split: if_splits)
  show ?thesis
  proof (cases "pendingChunkUpdates s")
    case None
    with f nd pq show ?thesis by (simp add: processPendingChunkUpdates_def)
  next
    case (Some a)
    show ?thesis
    proof (cases "updates s a")
      case None
      with f nd Some pq show ?thesis by (simp add: processPendingChunkUpdates_def)
    next
      case (Some u)
      from f have ap: "applyUpdate u s = Inl (e, s')"
        by (simp add: tick_running [OF nd \<open>pendingChunkUpdates s = Some a\<close> Some]
            split: sum.splits)
      then have "s' = state_after (applyUpdate u s)" by (simp add: state_after_def)
      then have "pending s' q = pending s q"
        by (intro pending_cong) (simp_all add: applyUpdate_fields)
      with pq show ?thesis by simp
    qed
  qed
qed

lemma tick_pops_head:
  assumes pq: "pending s q" and nd: "\<not> deadline_passed now s"
    and r: "processPendingChunkUpdates now now' s = Inr s'"
  shows "\<exists>a q' u s1. q = a # q' \<and> updates s a = Some u \<and> applyUpdate u s = Inr s1
           \<and> s' = popUpdate now' a s1 \<and> pending s' q' \<and> updates s' = updates s
           \<and> length (timeouts s') = length (timeouts s) + (if q' = [] then 0 else 1)"
proof -
  from r nd obtain a where hd: "pendingChunkUpdates s = Some a"
    by (auto simp: processPendingChunkUpdates_def split: option.splits)
  with pq obtain q' where q: "q = a # q'"
    by (cases q) (auto simp: pending_def)
  from r nd hd obtain u where u: "updates s a = Some u"
    by (auto simp: processPendingChunkUpdates_def split: option.splits)
  from r obtain s1 where ap: "applyUpdate u s = Inr s1" and s': "s' = popUpdate now' a s1"
    by (auto simp: tick_running [OF nd hd u] split: sum.splits)
  from ap have s1: "s1 = state_after (applyUpdate u s)" by (simp add: state_after_def)
  then have "pending s1 (a # q') = pending s (a # q')"
    by (intro pending_cong) (simp_all add: applyUpdate_fields)
  with pq q have p1: "pending s1 (a # q')" by simp
  have t1: "timeouts s1 = timeouts s" and u1: "updates s1 = updates s"
    using s1 by (simp_all add: applyUpdate_fields)
  have "updates (popUpdate now' a s1) = updates s1"
    by (simp add: popUpdate_def scheduleChunkUpdate_def setTimeout_def Let_def)
  with popUpdate_pending_queue [OF p1, of now'] q u ap s' t1 u1 show ?thesis by simp
qed

text \<open>
  C2. Let the records pending in \<open>s\<close> be those at the addresses \<open>q\<close>, head first. A
  record that \<^verbatim>\<open>Chunk.update\<close> accepts is stored as it is at a new address, and this
  address is added at the end of \<open>q\<close>; a call that fails leaves \<open>q\<close> as it is. A tick
  that returns without being deferred has applied one record, the one at the head of \<open>q\<close>
  (\<open>applyUpdate\<close>, on the state before the tick), and leaves the rest of \<open>q\<close> pending in
  the same order; it has set one timer if that rest is not empty and none if it is empty.
  A deferred tick and a tick that fails leave \<open>q\<close> as it is. No stored record changes.
  So the records are applied one per tick, in the order of their arrival.
\<close>

theorem fifo_queue:
  assumes "pending s q"
  shows "(Chunk_update now x s = Inr s' \<longrightarrow>
            pending s' (q @ [nextUpdateAddr s])
            \<and> updates s' = (updates s)(nextUpdateAddr s \<mapsto> x))
       \<and> (Chunk_update now x s = Inl (e, s') \<longrightarrow> pending s' q)
       \<and> (processPendingChunkUpdates now now' s = Inr s' \<longrightarrow>
            (if deadline_passed now s then pending s' q \<and> updates s' = updates s
             else (\<exists>a q' u s1. q = a # q' \<and> updates s a = Some u \<and> applyUpdate u s = Inr s1
                     \<and> s' = popUpdate now' a s1 \<and> pending s' q' \<and> updates s' = updates s
                     \<and> length (timeouts s')
                         = length (timeouts s) + (if q' = [] then 0 else 1))))
       \<and> (processPendingChunkUpdates now now' s = Inl (e, s') \<longrightarrow> pending s' q)"
proof -
  have enq: "pending s' (q @ [nextUpdateAddr s])
             \<and> updates s' = (updates s)(nextUpdateAddr s \<mapsto> x)"
    if r: "Chunk_update now x s = Inr s'"
  proof -
    from r have "objects s (upd_source x) \<noteq> None"
      by (auto simp: Chunk_update_def Let_def split: option.splits)
    from Chunk_update_pending [OF assms this, of now] r show ?thesis by auto
  qed
  have enq_failed: "pending s' q" if "Chunk_update now x s = Inl (e, s')"
    using assms that by (rule Chunk_update_failed_pending)
  have tick: "if deadline_passed now s then pending s' q \<and> updates s' = updates s
        else (\<exists>a q' u s1. q = a # q' \<and> updates s a = Some u \<and> applyUpdate u s = Inr s1
                \<and> s' = popUpdate now' a s1 \<and> pending s' q' \<and> updates s' = updates s
                \<and> length (timeouts s') = length (timeouts s) + (if q' = [] then 0 else 1))"
    if r: "processPendingChunkUpdates now now' s = Inr s'"
  proof (cases "deadline_passed now s")
    case True
    with r have "s' = setTimeout (chunkUpdateDelay s) s"
      by (simp add: processPendingChunkUpdates_def)
    with assms True show ?thesis by (simp add: setTimeout_def pending_def)
  next
    case False
    with tick_pops_head [OF assms False r] show ?thesis by simp
  qed
  have tick_failed: "pending s' q" if "processPendingChunkUpdates now now' s = Inl (e, s')"
    using assms that by (rule tick_failed_pending)
  from enq enq_failed tick tick_failed show ?thesis by blast
qed

text \<open>
  The queue of a new frontend is empty, and after every run there is a list of addresses
  that the queue holds.
\<close>

lemma step_pending:
  assumes "pending s q"
  shows "\<exists>q'. pending (step f a s) q'"
proof (cases a)
  case (Tick now now')
  show ?thesis
  proof (cases "processPendingChunkUpdates now now' s")
    case (Inl es)
    then obtain e s' where f: "processPendingChunkUpdates now now' s = Inl (e, s')"
      by (cases es) auto
    with tick_failed_pending [OF assms f] Tick show ?thesis
      by (auto simp: state_after_def)
  next
    case (Inr s')
    show ?thesis
    proof (cases "deadline_passed now s")
      case True
      with Inr have "s' = setTimeout (chunkUpdateDelay s) s"
        by (simp add: processPendingChunkUpdates_def)
      with assms have "pending s' q" by (simp add: setTimeout_def pending_def)
      with Tick Inr show ?thesis by (auto simp: state_after_def)
    next
      case False
      from tick_pops_head [OF assms False Inr] Tick Inr show ?thesis
        by (auto simp: state_after_def)
    qed
  qed
next
  case (Receive now x)
  show ?thesis
  proof (cases "Chunk_update now x s")
    case (Inl es)
    then obtain e s' where f: "Chunk_update now x s = Inl (e, s')" by (cases es) auto
    with Chunk_update_failed_pending [OF assms f] Receive show ?thesis
      by (auto simp: state_after_def)
  next
    case (Inr s')
    then have "objects s (upd_source x) \<noteq> None"
      by (auto simp: Chunk_update_def Let_def split: option.splits)
    from Chunk_update_pending [OF assms this, of now] Inr Receive show ?thesis
      by (auto simp: state_after_def)
  qed
next
  case (Acquire c options)
  have "pending (snd (getChunkSource f c options s)) q = pending s q"
  proof (cases "memoize s (sourceKey f c options)")
    case None
    show ?thesis unfolding getChunkSource_miss [OF None] by (simp add: pending_def)
  next
    case (Some r)
    show ?thesis unfolding getChunkSource_hit [OF Some]
      by (simp add: pending_def addRef_def split: option.splits)
  qed
  with assms Acquire show ?thesis by auto
next
  case (SetDeadline d)
  with assms show ?thesis by (auto simp: pending_def)
qed

lemma run_pending: "pending s q \<Longrightarrow> \<exists>q'. pending (run f as s) q'"
proof (induction as arbitrary: s q)
  case Nil
  then show ?case by auto
next
  case (Cons a as)
  from step_pending [OF Cons.prems, of f a] obtain q' where "pending (step f a s) q'" ..
  from Cons.IH [OF this] show ?case by simp
qed

lemma new_world_pending: "pending (new_world gpu sys dl) []"
  by (simp add: pending_def new_world_def)

lemma scenario_A_pending: "pending scenario_A [0]"
  by (simp add: scenario_defs pending_def)

lemma scenario_AB_pending: "pending scenario_AB [0, 1]"
  by (simp add: scenario_AB_def scenario_defs pending_def)

lemma scenario_AB_tick:
  "processPendingChunkUpdates 1 1 scenario_AB
     = Inr (state_after (processPendingChunkUpdates 1 1 scenario_AB))"
  by (simp add: scenario_AB_def scenario_defs
      processPendingChunkUpdates_def applyUpdate_def resolveChunk_def source_getChunk_def
      new_Chunk_def applyState_def put_chunk_def addChunk_def copyToGPU_def popUpdate_def)

theorem fifo_queue_witness:
  "pending scenario_A [0]
   \<and> Chunk_update 0 demote_c1 scenario_A = Inr scenario_AB
   \<and> pending scenario_AB [0, 1]
   \<and> updates scenario_AB 0 = Some promote_c1 \<and> updates scenario_AB 1 = Some demote_c1
   \<and> \<not> deadline_passed 1 scenario_AB
   \<and> pending (state_after (processPendingChunkUpdates 1 1 scenario_AB)) [1]
   \<and> timeouts (state_after (processPendingChunkUpdates 1 1 scenario_AB)) = [0, 0]"
proof -
  have cu: "Chunk_update 0 demote_c1 scenario_A = Inr scenario_AB"
    by (simp add: scenario_AB_def scenario_defs)
  from fifo_queue [OF scenario_A_pending, where now = 0 and x = demote_c1 and s' = scenario_AB] cu
  have pAB: "pending scenario_AB [0, 1]" and "updates scenario_AB 1 = Some demote_c1"
    by (simp_all add: scenario_defs)
  moreover have nd: "\<not> deadline_passed 1 scenario_AB"
    by (simp add: scenario_AB_def scenario_defs)
  moreover from fifo_queue [OF pAB, where now = 1 and now' = 1
      and s' = "state_after (processPendingChunkUpdates 1 1 scenario_AB)"]
    scenario_AB_tick nd
  have "pending (state_after (processPendingChunkUpdates 1 1 scenario_AB)) [1]"
    by auto
  moreover have "updates scenario_AB 0 = Some promote_c1"
    by (simp add: scenario_AB_def scenario_defs)
  moreover have "timeouts (state_after (processPendingChunkUpdates 1 1 scenario_AB)) = [0, 0]"
    by (simp add: scenario_AB_def scenario_defs
      processPendingChunkUpdates_def applyUpdate_def resolveChunk_def source_getChunk_def
      new_Chunk_def applyState_def put_chunk_def addChunk_def copyToGPU_def popUpdate_def
      Let_def)
  ultimately show ?thesis using scenario_A_pending cu by simp
qed

end
